theory Spec2Isabelle
  imports Main "HOL-Library.Word"
begin

unbundle bit_operations_syntax

section \<open>The chain emulator of setups/example2/ns-3/emulator.cc\<close>

text \<open>
  The program is one function, \<open>main\<close>, that drives the ns-3 library: it validates the
  router count, creates the nodes, wires a chain of CSMA links, assigns one /24 per link,
  bridges the two outer devices to tap interfaces, populates the routing tables and runs
  the simulator. The model keeps the order of the source's statements. The ns-3 objects
  it touches (node list, channels, devices, interface addresses, tap bridges) are fields
  of one record; the helper objects that are local variables of \<open>main\<close> are values
  threaded through it. Every assertion of the library that \<open>main\<close> could trip is an
  error value.
\<close>

subsection \<open>Strings and IPv4 addresses\<close>

type_synonym ipv4 = "32 word"

definition digit_char :: "nat \<Rightarrow> char" where
  "digit_char d = char_of (48 + d)"

text \<open>\<open>std::to_string\<close> on a non-negative integer: its decimal digits.\<close>

fun to_string :: "nat \<Rightarrow> string" where
  "to_string n = (if n < 10 then [digit_char n] else to_string (n div 10) @ [digit_char (n mod 10)])"

declare to_string.simps [simp del]

definition is_digit :: "char \<Rightarrow> bool" where
  "is_digit c = (48 \<le> (of_char c :: nat) \<and> (of_char c :: nat) \<le> 57)"

definition parse_dec :: "string \<Rightarrow> nat" where
  "parse_dec s = foldl (\<lambda>a c. 10 * a + ((of_char c :: nat) - 48)) 0 s"

definition parse_octet :: "string \<Rightarrow> nat option" where
  "parse_octet s =
     (if s \<noteq> [] \<and> length s \<le> 3 \<and> list_all is_digit s \<and> parse_dec s < 256
      then Some (parse_dec s) else None)"

fun split_dots :: "string \<Rightarrow> string list" where
  "split_dots [] = [[]]"
| "split_dots (c # cs) =
     (if c = CHR ''.'' then [] # split_dots cs
      else (c # hd (split_dots cs)) # tl (split_dots cs))"

definition ipv4_of :: "nat \<Rightarrow> nat \<Rightarrow> nat \<Rightarrow> nat \<Rightarrow> ipv4" where
  "ipv4_of a b c d = word_of_nat (((a * 256 + b) * 256 + c) * 256 + d)"

text \<open>
  The constructors \<open>Ipv4Address(const char*)\<close> and \<open>Ipv4Mask(const char*)\<close>: a dotted quad of
  four decimal octets, in host byte order; \<open>None\<close> where the library rejects the string.
\<close>

definition Ipv4Address :: "string \<Rightarrow> ipv4 option" where
  "Ipv4Address s =
     (case map parse_octet (split_dots s) of
        [Some a, Some b, Some c, Some d] \<Rightarrow> Some (ipv4_of a b c d)
      | _ \<Rightarrow> None)"

subsection \<open>The simulation state\<close>

text \<open>
  A node is its id in the node list. A device is named by the link that created it and
  its position in the device container \<open>csma.Install\<close> returned (0 for the first node of
  the link, 1 for the second). A link is a CSMA channel with its attributes and its two
  devices; its index is its position in creation order.
\<close>

record device =
  dev_node :: nat
  dev_link :: nat
  dev_index :: nat

record channel =
  ch_rate :: string
  ch_delay :: "64 word"
  ch_devices :: "device list"

record ifaddr =
  ia_dev :: device
  ia_local :: ipv4
  ia_mask :: ipv4

record bridge =
  br_node :: nat
  br_device :: device
  br_mode :: string
  br_name :: string

datatype call =
    BindGlobal string string
  | SetDefault string string
  | CreateNodes nat
  | CsmaInstall "nat list"
  | StackInstall nat
  | AssignAddr device ipv4
  | TapInstall nat device
  | PopulateRoutingTables
  | SimStop "16 word"
  | SimRun
  | SimDestroy
  | LogError string

record sim =
  node_count :: nat
  stack_nodes :: "nat list"
  channels :: "channel list"
  ifaddrs :: "ifaddr list"
  bridges :: "bridge list"
  trace :: "call list"

definition sim0 :: sim where
  "sim0 = \<lparr>node_count = 0, stack_nodes = [], channels = [], ifaddrs = [], bridges = [],
           trace = []\<rparr>"

datatype error =
    IndexOutOfRange
  | StackAlreadyInstalled nat
  | BadAddressString
  | InconsistentNetworkAndMask
  | NoIpv4OnNode nat
  | AddressOverflow
  | AddressCollision ipv4

definition called :: "call \<Rightarrow> sim \<Rightarrow> sim" where
  "called c st = st\<lparr>trace := trace st @ [c]\<rparr>"

subsection \<open>The ns-3 services \<open>main\<close> uses\<close>

text \<open>\<open>NodeContainer::Create\<close>: fresh nodes, with the next ids of the node list.\<close>

definition Create :: "nat \<Rightarrow> sim \<Rightarrow> nat list \<times> sim" where
  "Create k st =
     ([node_count st ..< node_count st + k],
      called (CreateNodes k) (st\<lparr>node_count := node_count st + k\<rparr>))"

text \<open>\<open>Get\<close> of a node or device container indexes a vector; out of range is an error.\<close>

definition Get :: "'a list \<Rightarrow> nat \<Rightarrow> error + 'a" where
  "Get xs i = (if i < length xs then Inr (xs ! i) else Inl IndexOutOfRange)"

record CsmaHelper =
  DataRate :: string
  Delay :: "64 word"

text \<open>
  \<open>CsmaHelper::Install(NodeContainer)\<close>: one new channel with the helper's attributes and
  one device per node of the container, in the container's order.
\<close>

definition csma_Install :: "CsmaHelper \<Rightarrow> nat list \<Rightarrow> sim \<Rightarrow> device list \<times> sim" where
  "csma_Install csma c st =
     (let l = length (channels st);
          devs = map (\<lambda>k. \<lparr>dev_node = c ! k, dev_link = l, dev_index = k\<rparr>) [0 ..< length c]
      in (devs,
          called (CsmaInstall c)
            (st\<lparr>channels := channels st @
                  [\<lparr>ch_rate = DataRate csma, ch_delay = Delay csma, ch_devices = devs\<rparr>]\<rparr>)))"

text \<open>
  \<open>InternetStackHelper::Install(Ptr<Node>)\<close> aggregates an Ipv4 object to the node and
  refuses a node that has one.
\<close>

definition stack_Install :: "nat \<Rightarrow> sim \<Rightarrow> error + sim" where
  "stack_Install nd st =
     (if nd \<in> set (stack_nodes st) then Inl (StackAlreadyInstalled nd)
      else Inr (called (StackInstall nd) (st\<lparr>stack_nodes := stack_nodes st @ [nd]\<rparr>)))"

record Ipv4AddressHelper =
  m_network :: ipv4
  m_mask :: ipv4
  m_address :: ipv4

text \<open>
  \<open>Ipv4AddressHelper::SetBase(network, mask)\<close> with the default base address 0.0.0.1; it
  asserts that the network has no bit outside the mask. The library keeps the network
  shifted down by the number of host bits and shifts it back for every address; with no
  network bit outside the mask both shifts cancel, and the model keeps the network as it is.
\<close>

definition SetBase :: "string \<Rightarrow> string \<Rightarrow> error + Ipv4AddressHelper" where
  "SetBase network netmask =
     (case Ipv4Address network of
        None \<Rightarrow> Inl BadAddressString
      | Some n \<Rightarrow>
          (case Ipv4Address netmask of
             None \<Rightarrow> Inl BadAddressString
           | Some m \<Rightarrow>
               if n AND NOT m = 0 then Inr \<lparr>m_network = n, m_mask = m, m_address = 1\<rparr>
               else Inl InconsistentNetworkAndMask))"

text \<open>
  \<open>Ipv4AddressHelper::Assign\<close> on one device: the device's node must carry an Ipv4 object
  (the library asserts it); the host counter must not pass the last host address of the
  mask (all host bits set, minus one: 254 for a /24); the new address, network bits or
  host counter, must not have been handed out before (the address generator aborts on a
  duplicate); then the counter moves on.
\<close>

definition Assign_device ::
  "device \<Rightarrow> Ipv4AddressHelper \<Rightarrow> sim \<Rightarrow> error + (Ipv4AddressHelper \<times> sim)" where
  "Assign_device d h st =
     (if dev_node d \<notin> set (stack_nodes st) then Inl (NoIpv4OnNode (dev_node d))
      else if NOT (m_mask h) - 1 < m_address h then Inl AddressOverflow
      else
        (let a = m_network h OR m_address h in
         if a \<in> set (map ia_local (ifaddrs st)) then Inl (AddressCollision a)
         else Inr (h\<lparr>m_address := m_address h + 1\<rparr>,
                   called (AssignAddr d a)
                     (st\<lparr>ifaddrs := ifaddrs st @
                           [\<lparr>ia_dev = d, ia_local = a, ia_mask = m_mask h\<rparr>]\<rparr>))))"

text \<open>\<open>Assign\<close> on a device container: the devices in order, stopping at the first error.\<close>

fun Assign ::
  "device list \<Rightarrow> Ipv4AddressHelper \<Rightarrow> sim \<Rightarrow> error + (Ipv4AddressHelper \<times> sim)" where
  "Assign [] h st = Inr (h, st)"
| "Assign (d # ds) h st =
     (case Assign_device d h st of
        Inl e \<Rightarrow> Inl e
      | Inr (h', st') \<Rightarrow> Assign ds h' st')"

record TapBridgeHelper =
  Mode :: string
  DeviceName :: string

text \<open>\<open>TapBridgeHelper::Install(node, device)\<close>: a bridge of the device to the named tap.\<close>

definition tapBridge_Install :: "TapBridgeHelper \<Rightarrow> nat \<Rightarrow> device \<Rightarrow> sim \<Rightarrow> sim" where
  "tapBridge_Install tb nd d st =
     called (TapInstall nd d)
       (st\<lparr>bridges := bridges st @
             [\<lparr>br_node = nd, br_device = d, br_mode = Mode tb, br_name = DeviceName tb\<rparr>]\<rparr>)"

subsection \<open>Sequencing\<close>

text \<open>
  A step of \<open>main\<close> either aborts with an error or yields a value; a loop may also not
  return (\<open>None\<close>).
\<close>

definition bindE :: "error + 'a \<Rightarrow> ('a \<Rightarrow> error + 'b) \<Rightarrow> error + 'b" where
  "bindE m f = (case m of Inl e \<Rightarrow> Inl e | Inr x \<Rightarrow> f x)"

definition bindR ::
  "(error + 'a) option \<Rightarrow> ('a \<Rightarrow> (error + 'b) option) \<Rightarrow> (error + 'b) option" where
  "bindR m f = (case m of None \<Rightarrow> None | Some (Inl e) \<Rightarrow> Some (Inl e) | Some (Inr x) \<Rightarrow> f x)"

definition liftE :: "error + 'a \<Rightarrow> (error + 'a) option" where
  "liftE m = Some m"

subsection \<open>The loops of \<open>main\<close>\<close>

text \<open>
  Lines 57-59. The counter is a \<open>uint16_t\<close>; the bound \<open>noOfRouters + 1\<close> is computed in
  \<open>int\<close>, so it does not wrap, and the increment of the counter does.
\<close>

partial_function (option) stack_loop ::
  "16 word \<Rightarrow> 16 word \<Rightarrow> nat list \<Rightarrow> sim \<Rightarrow> (error + sim) option" where
  "stack_loop router noOfRouters nodes st =
     (if uint router < uint noOfRouters + 1 then
        (case bindE (Get nodes (unat router)) (\<lambda>nd. stack_Install nd st) of
           Inl e \<Rightarrow> Some (Inl e)
         | Inr st' \<Rightarrow> stack_loop (router + 1) noOfRouters nodes st')
      else Some (Inr st))"

declare stack_loop.simps [code]

text \<open>
  Lines 64-70. \<open>router + 1\<close> in \<open>nodes.Get(router + 1)\<close> is an \<open>int\<close> as well. The loop
  changes the address helper, which it hands back with the state.
\<close>

partial_function (option) link_loop ::
  "16 word \<Rightarrow> 16 word \<Rightarrow> nat list \<Rightarrow> CsmaHelper \<Rightarrow> Ipv4AddressHelper \<Rightarrow> sim \<Rightarrow>
     (error + (Ipv4AddressHelper \<times> sim)) option" where
  "link_loop router noOfRouters nodes csma addresses st =
     (if uint router < uint noOfRouters then
        (case
           bindE (Get nodes (unat router)) (\<lambda>n0.
           bindE (Get nodes (unat router + 1)) (\<lambda>n1.
             let link = [n0, n1];
                 (linkDevices, st1) = csma_Install csma link st
             in
           bindE (SetBase (''172.20.'' @ to_string (unat router) @ ''.0'') ''255.255.255.0'')
             (\<lambda>addresses1.
           Assign linkDevices addresses1 st1)))
         of
           Inl e \<Rightarrow> Some (Inl e)
         | Inr (addresses', st') \<Rightarrow>
             link_loop (router + 1) noOfRouters nodes csma addresses' st')
      else Some (Inr (addresses, st)))"

declare link_loop.simps [code]

subsection \<open>\<open>main\<close>\<close>

text \<open>
  Lines 15-99. The arguments are the values of \<open>runSeconds\<close>, \<open>delayNanoSeconds\<close> and
  \<open>noOfRouters\<close> after \<open>cmd.Parse\<close>, in their C++ types. The result is \<open>None\<close> when
  \<open>main\<close> does not return, an error when an assertion of the library stops it, and
  otherwise the exit code with the final state. The container \<open>internetStackNodes\<close> is
  filled on line 76 and never read. Opening the two tap interfaces happens inside the
  simulator run and is not part of the model.
\<close>

definition main :: "16 word \<Rightarrow> 64 word \<Rightarrow> 16 word \<Rightarrow> (error + (int \<times> sim)) option" where
  "main runSeconds delayNanoSeconds noOfRouters =
     (let mode = ''UseBridge''; tapName0 = ''ns3_em0''; tapName1 = ''ns3_em1'' in
      if noOfRouters = 0 \<or> noOfRouters > 63 then
        Some (Inr (1, called (LogError ''Invalid router count'') sim0))
      else
        let st = called (BindGlobal ''SimulatorImplementationType'' ''ns3::RealtimeSimulatorImpl'') sim0;
            st = called (BindGlobal ''ChecksumEnabled'' ''true'') st;
            st = called (SetDefault ''ns3::RealtimeSimulatorImpl::SynchronizationMode'' ''BestEffort'') st;
            (nodes, st) = Create (2 + unat noOfRouters) st;
            csma = \<lparr>DataRate = ''1000Mbps'', Delay = delayNanoSeconds\<rparr>
        in
        bindR (liftE (Get nodes 0)) (\<lambda>n0.
        let tapNodes = [n0] in
        bindR (liftE (Get nodes 1)) (\<lambda>n1.
        let firstLink = [n0, n1];
            (firstDevices, st) = csma_Install csma firstLink st
        in
        bindR (liftE (Get firstDevices 0)) (\<lambda>fd0.
        let tapDevices = [fd0] in
        bindR (stack_loop 1 noOfRouters nodes st) (\<lambda>st.
        bindR (liftE (SetBase ''172.20.0.0'' ''255.255.255.0'')) (\<lambda>addresses.
        bindR (liftE (Get firstDevices 1)) (\<lambda>fd1.
        bindR (liftE (Assign [fd1] addresses st)) (\<lambda>(addresses, st).
        bindR (link_loop 1 noOfRouters nodes csma addresses st) (\<lambda>(addresses, st).
        bindR (liftE (Get nodes (unat noOfRouters + 1))) (\<lambda>nl1.
        let tapNodes = tapNodes @ [nl1] in
        bindR (liftE (Get nodes (unat noOfRouters))) (\<lambda>nl0.
        let lastLink = [nl0, nl1];
            (lastDevices, st) = csma_Install csma lastLink st
        in
        bindR (liftE (Get lastDevices 1)) (\<lambda>ld1.
        let tapDevices = tapDevices @ [ld1] in
        bindR (liftE (Get nodes (unat noOfRouters))) (\<lambda>isn.
        let internetStackNodes = [isn] in
        bindR (liftE (SetBase (''172.20.'' @ to_string (unat noOfRouters) @ ''.0'') ''255.255.255.0''))
          (\<lambda>addresses.
        bindR (liftE (Get lastDevices 0)) (\<lambda>ld0.
        bindR (liftE (Assign [ld0] addresses st)) (\<lambda>(addresses, st).
        let tapBridge = \<lparr>Mode = mode, DeviceName = tapName0\<rparr> in
        bindR (liftE (Get tapNodes 0)) (\<lambda>tn0.
        bindR (liftE (Get tapDevices 0)) (\<lambda>td0.
        let st = tapBridge_Install tapBridge tn0 td0 st;
            tapBridge = tapBridge\<lparr>DeviceName := tapName1\<rparr>
        in
        bindR (liftE (Get tapNodes 1)) (\<lambda>tn1.
        bindR (liftE (Get tapDevices 1)) (\<lambda>td1.
        let st = tapBridge_Install tapBridge tn1 td1 st;
            st = (if noOfRouters \<noteq> 0 then called PopulateRoutingTables st else st);
            st = called (SimStop runSeconds) st;
            st = called SimRun st;
            st = called SimDestroy st
        in Some (Inr (0, st))))))))))))))))))))))"

section \<open>The chain a valid router count yields\<close>

text \<open>
  The state \<open>main\<close> ends in, written out for \<open>N\<close> routers: link \<open>l\<close> joins node
  \<open>l\<close> and node \<open>l + 1\<close>; its device \<open>k\<close> sits on node \<open>l + k\<close>. The lemmas below
  prove that \<open>main\<close> computes exactly this state; the properties of the topology are
  then read off it.
\<close>

definition chain_device :: "nat \<Rightarrow> nat \<Rightarrow> device" where
  "chain_device l k = \<lparr>dev_node = l + k, dev_link = l, dev_index = k\<rparr>"

definition chain_link :: "64 word \<Rightarrow> nat \<Rightarrow> channel" where
  "chain_link d l =
     \<lparr>ch_rate = ''1000Mbps'', ch_delay = d, ch_devices = [chain_device l 0, chain_device l 1]\<rparr>"

definition chain_ifaddr :: "nat \<Rightarrow> nat \<Rightarrow> ipv4 \<Rightarrow> ifaddr" where
  "chain_ifaddr l k h =
     \<lparr>ia_dev = chain_device l k, ia_local = ipv4_of 172 20 l 0 OR h,
      ia_mask = ipv4_of 255 255 255 0\<rparr>"

definition inner_ifaddrs :: "nat \<Rightarrow> ifaddr list" where
  "inner_ifaddrs l = [chain_ifaddr l 0 1, chain_ifaddr l 1 2]"

definition inner_calls :: "nat \<Rightarrow> call list" where
  "inner_calls l =
     [CsmaInstall [l, Suc l],
      AssignAddr (chain_device l 0) (ipv4_of 172 20 l 0 OR 1),
      AssignAddr (chain_device l 1) (ipv4_of 172 20 l 0 OR 2)]"

text \<open>
  The invariant of the addressing steps: every address handed out so far lies in the
  subnet of a link with a smaller index.
\<close>

definition below :: "nat \<Rightarrow> sim \<Rightarrow> bool" where
  "below r st =
     (\<forall>a \<in> set (ifaddrs st). \<exists>j<r. ia_local a AND ipv4_of 255 255 255 0 = ipv4_of 172 20 j 0)"

definition chain_setup :: "nat \<Rightarrow> call list" where
  "chain_setup N =
     [BindGlobal ''SimulatorImplementationType'' ''ns3::RealtimeSimulatorImpl'',
      BindGlobal ''ChecksumEnabled'' ''true'',
      SetDefault ''ns3::RealtimeSimulatorImpl::SynchronizationMode'' ''BestEffort'',
      CreateNodes (2 + N),
      CsmaInstall [0, Suc 0]] @
     map StackInstall [1..<N + 1] @
     [AssignAddr (chain_device 0 1) (ipv4_of 172 20 0 0 OR 1)] @
     concat (map inner_calls [1..<N]) @
     [CsmaInstall [N, Suc N],
      AssignAddr (chain_device N 0) (ipv4_of 172 20 N 0 OR 1),
      TapInstall 0 (chain_device 0 0),
      TapInstall (Suc N) (chain_device N 1)]"

definition chain_calls :: "16 word \<Rightarrow> nat \<Rightarrow> call list" where
  "chain_calls rs N =
     chain_setup N @ [PopulateRoutingTables, SimStop rs, SimRun, SimDestroy]"

definition chain :: "16 word \<Rightarrow> 64 word \<Rightarrow> nat \<Rightarrow> sim" where
  "chain rs d N =
     \<lparr>node_count = N + 2,
      stack_nodes = [1..<N + 1],
      channels = map (chain_link d) [0..<N + 1],
      ifaddrs = chain_ifaddr 0 1 1 # concat (map inner_ifaddrs [1..<N]) @ [chain_ifaddr N 0 1],
      bridges =
        [\<lparr>br_node = 0, br_device = chain_device 0 0, br_mode = ''UseBridge'',
          br_name = ''ns3_em0''\<rparr>,
         \<lparr>br_node = Suc N, br_device = chain_device N 1, br_mode = ''UseBridge'',
          br_name = ''ns3_em1''\<rparr>],
      trace = chain_calls rs N\<rparr>"

section \<open>Reading a topology\<close>

text \<open>
  The source has no type for an endpoint's role; the role shows in what \<open>main\<close> does to
  the node. A router is a node with the internet stack and no tap bridge, an OS bridge
  endpoint a node with a tap bridge and no internet stack. The SubnetBlock of an interface
  address is its network and mask; the blocks of a link are those of the addresses on the
  link's devices.
\<close>

definition is_Router :: "sim \<Rightarrow> nat \<Rightarrow> bool" where
  "is_Router st nd = (nd \<in> set (stack_nodes st) \<and> nd \<notin> set (map br_node (bridges st)))"

definition is_OsBridgeEndpoint :: "sim \<Rightarrow> nat \<Rightarrow> bool" where
  "is_OsBridgeEndpoint st nd =
     (nd \<in> set (map br_node (bridges st)) \<and> nd \<notin> set (stack_nodes st))"

definition link_device :: "sim \<Rightarrow> nat \<Rightarrow> nat \<Rightarrow> device" where
  "link_device st l k = ch_devices (channels st ! l) ! k"

definition addressed :: "sim \<Rightarrow> device \<Rightarrow> bool" where
  "addressed st dv = (dv \<in> set (map ia_dev (ifaddrs st)))"

definition SubnetBlock :: "nat \<Rightarrow> ipv4 \<times> ipv4" where
  "SubnetBlock i = (ipv4_of 172 20 i 0, ipv4_of 255 255 255 0)"

definition block_of :: "ifaddr \<Rightarrow> ipv4 \<times> ipv4" where
  "block_of a = (ia_local a AND ia_mask a, ia_mask a)"

definition link_blocks :: "sim \<Rightarrow> nat \<Rightarrow> (ipv4 \<times> ipv4) list" where
  "link_blocks st l =
     map block_of (filter (\<lambda>a. ia_dev a \<in> set (ch_devices (channels st ! l))) (ifaddrs st))"

definition block_addresses :: "ipv4 \<times> ipv4 \<Rightarrow> ipv4 set" where
  "block_addresses b = {a. a AND snd b = fst b}"

fun is_AssignAddr :: "call \<Rightarrow> bool" where
  "is_AssignAddr (AssignAddr dv a) = True"
| "is_AssignAddr c = False"

fun is_TapInstall :: "call \<Rightarrow> bool" where
  "is_TapInstall (TapInstall nd dv) = True"
| "is_TapInstall c = False"

section \<open>Decimal strings and dotted quads\<close>

lemma of_char_digit_char: "d < 10 \<Longrightarrow> (of_char (digit_char d) :: nat) = 48 + d"
  by (simp add: digit_char_def)

lemma is_digit_digit_char: "d < 10 \<Longrightarrow> is_digit (digit_char d)"
  by (simp add: is_digit_def of_char_digit_char)

lemma digit_char_not_dot: "d < 10 \<Longrightarrow> digit_char d \<noteq> CHR ''.''"
proof
  assume d: "d < 10" and e: "digit_char d = CHR ''.''"
  have "(of_char (digit_char d) :: nat) = of_char CHR ''.''" using e by simp
  then show False using d by (simp add: of_char_digit_char)
qed

lemma to_string_digits: "list_all is_digit (to_string n)"
proof (induction n rule: to_string.induct)
  case (1 n)
  show ?case
  proof (cases "n < 10")
    case True
    then show ?thesis by (simp add: to_string.simps [of n] is_digit_digit_char)
  next
    case False
    then show ?thesis using 1 by (simp add: to_string.simps [of n] is_digit_digit_char)
  qed
qed

lemma to_string_no_dot: "CHR ''.'' \<notin> set (to_string n)"
proof (induction n rule: to_string.induct)
  case (1 n)
  show ?case
  proof (cases "n < 10")
    case True
    then show ?thesis using digit_char_not_dot [of n] by (auto simp add: to_string.simps [of n])
  next
    case False
    then show ?thesis using 1 digit_char_not_dot [of "n mod 10"]
      by (auto simp add: to_string.simps [of n])
  qed
qed

lemma to_string_not_Nil: "to_string n \<noteq> []"
  by (simp add: to_string.simps [of n])

lemma to_string_length: "n < 1000 \<Longrightarrow> length (to_string n) \<le> 3"
  by (simp add: to_string.simps [of n] to_string.simps [of "n div 10"]
      to_string.simps [of "n div 10 div 10"])

lemma parse_dec_snoc: "parse_dec (s @ [c]) = 10 * parse_dec s + ((of_char c :: nat) - 48)"
  by (simp add: parse_dec_def)

lemma parse_dec_to_string: "parse_dec (to_string n) = n"
proof (induction n rule: to_string.induct)
  case (1 n)
  show ?case
  proof (cases "n < 10")
    case True
    then show ?thesis by (simp add: to_string.simps [of n] parse_dec_def of_char_digit_char)
  next
    case False
    then show ?thesis using 1
      by (simp add: to_string.simps [of n] parse_dec_snoc of_char_digit_char)
  qed
qed

lemma parse_octet_to_string: "n < 256 \<Longrightarrow> parse_octet (to_string n) = Some n"
  by (simp add: parse_octet_def to_string_not_Nil to_string_length to_string_digits
      parse_dec_to_string)

lemma split_dots_field:
  "CHR ''.'' \<notin> set ds \<Longrightarrow> split_dots (ds @ CHR ''.'' # rest) = ds # split_dots rest"
  by (induction ds) auto

lemma Ipv4Address_subnet:
  assumes "i < 256"
  shows "Ipv4Address (''172.20.'' @ to_string i @ ''.0'') = Some (ipv4_of 172 20 i 0)"
proof -
  have "split_dots (''172.20.'' @ to_string i @ ''.0'') = [''172'', ''20'', to_string i, ''0'']"
    by (simp add: split_dots_field [OF to_string_no_dot])
  moreover have "parse_octet ''172'' = Some 172" "parse_octet ''20'' = Some 20"
    "parse_octet ''0'' = Some 0"
    by (simp_all add: parse_octet_def parse_dec_def is_digit_def)
  ultimately show ?thesis
    using assms by (simp add: Ipv4Address_def parse_octet_to_string)
qed

lemma Ipv4Address_first: "Ipv4Address ''172.20.0.0'' = Some (ipv4_of 172 20 0 0)"
  by (simp add: Ipv4Address_def parse_octet_def parse_dec_def is_digit_def)

lemma Ipv4Address_mask: "Ipv4Address ''255.255.255.0'' = Some (ipv4_of 255 255 255 0)"
  by (simp add: Ipv4Address_def parse_octet_def parse_dec_def is_digit_def)

section \<open>The /24 subnets of 172.20.0.0\<close>

lemma subnet_push: "ipv4_of 172 20 i 0 = push_bit 8 (word_of_nat ((172 * 256 + 20) * 256 + i))"
  by (simp add: ipv4_of_def push_bit_eq_mult)

lemma mask24_not: "NOT (ipv4_of 255 255 255 0) = mask 8"
  by (simp add: ipv4_of_def mask_eq_exp_minus_1)

lemma mask24_max: "NOT (ipv4_of 255 255 255 0) - 1 = 254"
  by (simp add: ipv4_of_def)

lemma subnet_in_mask: "ipv4_of 172 20 i 0 AND NOT (ipv4_of 255 255 255 0) = 0"
  unfolding subnet_push mask24_not by (simp add: take_bit_push_bit flip: take_bit_eq_mask)

lemma and_not_zero:
  fixes n m :: ipv4
  assumes "n AND NOT m = 0"
  shows "n AND m = n"
proof -
  have "n = n AND (m OR NOT m)" by simp
  also have "\<dots> = (n AND m) OR (n AND NOT m)" by (rule bit.conj_disj_distrib)
  finally show ?thesis using assms by simp
qed

lemma network_of_host:
  fixes n m h :: ipv4
  assumes "n AND NOT m = 0" and "h AND m = 0"
  shows "(n OR h) AND m = n"
proof -
  have "(n OR h) AND m = (n AND m) OR (h AND m)" by (rule bit.conj_disj_distrib2)
  then show ?thesis using assms by (simp add: and_not_zero)
qed

lemma host_of_address:
  fixes n m h :: ipv4
  assumes "n AND NOT m = 0" and "h AND m = 0"
  shows "(n OR h) AND NOT m = h"
proof -
  have "h AND NOT (NOT m) = 0" using assms by simp
  then have h: "h AND NOT m = h" by (rule and_not_zero)
  have "(n OR h) AND NOT m = (n AND NOT m) OR (h AND NOT m)" by (rule bit.conj_disj_distrib2)
  then show ?thesis using assms h by simp
qed

lemma subnet_unat:
  assumes "i < 256"
  shows "unat (ipv4_of 172 20 i 0) = ((172 * 256 + 20) * 256 + i) * 256"
proof -
  have "((172 * 256 + 20) * 256 + i) * 256 < (2 :: nat) ^ LENGTH(32)"
    using assms by simp
  then have "(((172 * 256 + 20) * 256 + i) * 256) mod 2 ^ LENGTH(32) =
      ((172 * 256 + 20) * 256 + i) * 256"
    by (rule mod_less)
  then show ?thesis
    unfolding ipv4_of_def by (simp only: unat_of_nat add_0_right)
qed

lemma subnet_inj:
  assumes "i < 256" and "j < 256" and "ipv4_of 172 20 i 0 = ipv4_of 172 20 j 0"
  shows "i = j"
proof -
  have "unat (ipv4_of 172 20 i 0) = unat (ipv4_of 172 20 j 0)"
    using assms(3) by simp
  then have "((172 * 256 + 20) * 256 + i) * 256 = ((172 * 256 + 20) * 256 + j) * 256"
    by (simp only: subnet_unat [OF assms(1)] subnet_unat [OF assms(2)])
  then show ?thesis by simp
qed

lemma host_1: "(1 :: ipv4) AND ipv4_of 255 255 255 0 = 0"
  by (simp add: ipv4_of_def)

lemma host_2: "(2 :: ipv4) AND ipv4_of 255 255 255 0 = 0"
  by (simp add: ipv4_of_def)

lemma SetBase_subnet:
  "i < 256 \<Longrightarrow> SetBase (''172.20.'' @ to_string i @ ''.0'') ''255.255.255.0'' =
     Inr \<lparr>m_network = ipv4_of 172 20 i 0, m_mask = ipv4_of 255 255 255 0, m_address = 1\<rparr>"
  by (simp add: SetBase_def Ipv4Address_subnet [simplified] Ipv4Address_mask subnet_in_mask)

lemma SetBase_first:
  "SetBase ''172.20.0.0'' ''255.255.255.0'' =
     Inr \<lparr>m_network = ipv4_of 172 20 0 0, m_mask = ipv4_of 255 255 255 0, m_address = 1\<rparr>"
  by (simp add: SetBase_def Ipv4Address_first Ipv4Address_mask subnet_in_mask)

section \<open>The loops\<close>

lemma unat_succ16: "unat r < 65535 \<Longrightarrow> unat (r + 1 :: 16 word) = unat r + 1"
  by (simp add: unat_word_ariths)

lemma uint_less_succ: "(uint (r :: 16 word) < uint (n :: 16 word) + 1) = (unat r < unat n + 1)"
  by (simp only: uint_nat) arith

lemma uint_less: "(uint (r :: 16 word) < uint (n :: 16 word)) = (unat r < unat n)"
  by (simp only: uint_nat) arith

lemma Get_nodes: "k < m \<Longrightarrow> Get [0..<m] k = Inr k"
  by (simp add: Get_def)

lemma stack_loop_closed:
  assumes "unat n \<le> 63" and "1 \<le> unat r" and "unat r \<le> unat n + 1"
    and "stack_nodes st = [1..<unat r]"
  shows "stack_loop r n [0..<unat n + 2] st =
    Some (Inr (st\<lparr>stack_nodes := [1..<unat n + 1],
                   trace := trace st @ map StackInstall [unat r..<unat n + 1]\<rparr>))"
  using assms(2-4)
proof (induction k \<equiv> "unat n + 1 - unat r" arbitrary: r st)
  case 0
  then have e: "unat r = unat n + 1" by simp
  have cond: "\<not> uint r < uint n + 1"
    using e unfolding uint_less_succ by simp
  have "stack_loop r n [0..<unat n + 2] st = Some (Inr st)"
    by (subst stack_loop.simps) (simp only: cond if_False)
  moreover have "st\<lparr>stack_nodes := [1..<unat n + 1],
      trace := trace st @ map StackInstall [unat r..<unat n + 1]\<rparr> = st"
    using 0 e by simp
  ultimately show ?case by simp
next
  case (Suc k)
  have lt: "unat r < unat n + 1" using Suc.hyps(2) by simp
  have cond: "uint r < uint n + 1"
    using lt unfolding uint_less_succ by simp
  have r1: "unat (r + 1) = unat r + 1" using lt assms(1) by (simp add: unat_succ16)
  let ?st' = "called (StackInstall (unat r)) (st\<lparr>stack_nodes := stack_nodes st @ [unat r]\<rparr>)"
  have get: "Get [0..<unat n + 2] (unat r) = Inr (unat r)"
    using lt by (intro Get_nodes) simp
  have inst: "stack_Install (unat r) st = Inr ?st'"
    using Suc.prems by (simp add: stack_Install_def)
  have step: "bindE (Get [0..<unat n + 2] (unat r)) (\<lambda>nd. stack_Install nd st) = Inr ?st'"
    by (simp only: get bindE_def sum.case inst)
  have nodes': "stack_nodes ?st' = [1..<unat (r + 1)]"
    using Suc.prems r1 by (simp add: called_def)
  have IH: "stack_loop (r + 1) n [0..<unat n + 2] ?st' =
      Some (Inr (?st'\<lparr>stack_nodes := [1..<unat n + 1],
                   trace := trace ?st' @ map StackInstall [unat (r + 1)..<unat n + 1]\<rparr>))"
    using Suc.hyps(2) lt r1 nodes' by (intro Suc.hyps(1)) simp_all
  have "stack_loop r n [0..<unat n + 2] st = stack_loop (r + 1) n [0..<unat n + 2] ?st'"
    by (subst stack_loop.simps) (simp only: cond if_True step sum.case)
  also note IH
  also have "?st'\<lparr>stack_nodes := [1..<unat n + 1],
        trace := trace ?st' @ map StackInstall [unat (r + 1)..<unat n + 1]\<rparr> =
      st\<lparr>stack_nodes := [1..<unat n + 1],
         trace := trace st @ map StackInstall [unat r..<unat n + 1]\<rparr>"
    using lt r1 by (simp add: called_def upt_conv_Cons)
  finally show ?case .
qed

lemma Assign_device_ok:
  assumes "dev_node d \<in> set (stack_nodes st)" and "h = 1 \<or> h = 2"
    and "ipv4_of 172 20 i 0 OR h \<notin> ia_local ` set (ifaddrs st)"
  shows "Assign_device d
      \<lparr>m_network = ipv4_of 172 20 i 0, m_mask = ipv4_of 255 255 255 0, m_address = h\<rparr> st =
    Inr (\<lparr>m_network = ipv4_of 172 20 i 0, m_mask = ipv4_of 255 255 255 0, m_address = h + 1\<rparr>,
         called (AssignAddr d (ipv4_of 172 20 i 0 OR h))
           (st\<lparr>ifaddrs := ifaddrs st @
               [\<lparr>ia_dev = d, ia_local = ipv4_of 172 20 i 0 OR h,
                 ia_mask = ipv4_of 255 255 255 0\<rparr>]\<rparr>))"
proof -
  have "\<not> NOT (ipv4_of 255 255 255 0) - 1 < h"
    using assms(2) by (auto simp add: mask24_max)
  then show ?thesis
    using assms(1,3) by (simp add: Assign_device_def Let_def)
qed

lemma below_fresh:
  assumes "below r st" and "r < 256" and "h = 1 \<or> h = 2"
  shows "ipv4_of 172 20 r 0 OR h \<notin> ia_local ` set (ifaddrs st)"
proof
  assume "ipv4_of 172 20 r 0 OR h \<in> ia_local ` set (ifaddrs st)"
  then obtain a where a: "a \<in> set (ifaddrs st)" "ia_local a = ipv4_of 172 20 r 0 OR h"
    by auto
  from assms(1) a(1) obtain j where j: "j < r"
    "ia_local a AND ipv4_of 255 255 255 0 = ipv4_of 172 20 j 0"
    by (auto simp add: below_def)
  have "h AND ipv4_of 255 255 255 0 = 0" using assms(3) host_1 host_2 by auto
  then have "(ipv4_of 172 20 r 0 OR h) AND ipv4_of 255 255 255 0 = ipv4_of 172 20 r 0"
    by (rule network_of_host [OF subnet_in_mask])
  then have "ipv4_of 172 20 r 0 = ipv4_of 172 20 j 0" using a(2) j(2) by simp
  then have "r = j" using assms(2) j(1) by (intro subnet_inj) simp_all
  then show False using j(1) by simp
qed

lemma hosts_differ: "ipv4_of 172 20 i 0 OR 2 \<noteq> ipv4_of 172 20 i 0 OR 1"
proof
  assume e: "ipv4_of 172 20 i 0 OR 2 = ipv4_of 172 20 i 0 OR 1"
  have "(ipv4_of 172 20 i 0 OR 2) AND NOT (ipv4_of 255 255 255 0) = 2"
    by (rule host_of_address [OF subnet_in_mask host_2])
  moreover have "(ipv4_of 172 20 i 0 OR 1) AND NOT (ipv4_of 255 255 255 0) = 1"
    by (rule host_of_address [OF subnet_in_mask host_1])
  ultimately have "(2 :: ipv4) = 1" using e by simp
  then show False by simp
qed

lemma csma_Install_chain:
  "length (channels st) = l \<Longrightarrow>
   csma_Install \<lparr>DataRate = ''1000Mbps'', Delay = d\<rparr> [l, Suc l] st =
     ([chain_device l 0, chain_device l 1],
      called (CsmaInstall [l, Suc l]) (st\<lparr>channels := channels st @ [chain_link d l]\<rparr>))"
  by (simp add: csma_Install_def Let_def chain_device_def chain_link_def)

lemma below_mono: "below r st \<Longrightarrow> r \<le> r' \<Longrightarrow> below r' st"
  unfolding below_def by (meson less_le_trans)

lemma chain_ifaddr_network:
  "h = 1 \<or> h = 2 \<Longrightarrow>
   ia_local (chain_ifaddr l k h) AND ipv4_of 255 255 255 0 = ipv4_of 172 20 l 0"
  using network_of_host [OF subnet_in_mask host_1] network_of_host [OF subnet_in_mask host_2]
  by (auto simp add: chain_ifaddr_def)

lemma below_inner:
  assumes "below r st" and "ifaddrs st' = ifaddrs st @ inner_ifaddrs r"
  shows "below (Suc r) st'"
proof -
  have "below (Suc r) st" using assms(1) by (rule below_mono) simp
  then show ?thesis
    using assms(2) chain_ifaddr_network [of 1 r 0] chain_ifaddr_network [of 2 r 1]
    by (auto simp add: below_def inner_ifaddrs_def)
qed

lemma inner_step:
  assumes "r < 256" and "length (channels st) = r" and "below r st"
    and "r \<in> set (stack_nodes st)" and "Suc r \<in> set (stack_nodes st)"
  shows "\<exists>h'. Assign [chain_device r 0, chain_device r 1]
      \<lparr>m_network = ipv4_of 172 20 r 0, m_mask = ipv4_of 255 255 255 0, m_address = 1\<rparr>
      (called (CsmaInstall [r, Suc r]) (st\<lparr>channels := channels st @ [chain_link d r]\<rparr>)) =
    Inr (h', st\<lparr>channels := channels st @ [chain_link d r],
                ifaddrs := ifaddrs st @ inner_ifaddrs r,
                trace := trace st @ inner_calls r\<rparr>)"
proof -
  let ?st1 = "called (CsmaInstall [r, Suc r]) (st\<lparr>channels := channels st @ [chain_link d r]\<rparr>)"
  let ?st2 = "called (AssignAddr (chain_device r 0) (ipv4_of 172 20 r 0 OR 1))
      (?st1\<lparr>ifaddrs := ifaddrs ?st1 @ [chain_ifaddr r 0 1]\<rparr>)"
  let ?st3 = "called (AssignAddr (chain_device r 1) (ipv4_of 172 20 r 0 OR 2))
      (?st2\<lparr>ifaddrs := ifaddrs ?st2 @ [chain_ifaddr r 1 2]\<rparr>)"
  have f1: "ipv4_of 172 20 r 0 OR 1 \<notin> ia_local ` set (ifaddrs ?st1)"
    using below_fresh [OF assms(3) assms(1), of 1] by (simp add: called_def)
  have f2: "ipv4_of 172 20 r 0 OR 2 \<notin> ia_local ` set (ifaddrs ?st2)"
    using below_fresh [OF assms(3) assms(1), of 2] hosts_differ [of r]
    by (simp add: called_def chain_ifaddr_def)
  have a1: "Assign_device (chain_device r 0)
      \<lparr>m_network = ipv4_of 172 20 r 0, m_mask = ipv4_of 255 255 255 0, m_address = 1\<rparr> ?st1 =
      Inr (\<lparr>m_network = ipv4_of 172 20 r 0, m_mask = ipv4_of 255 255 255 0, m_address = 2\<rparr>,
           ?st2)"
    using assms(4) Assign_device_ok [OF _ _ f1, of "chain_device r 0"]
    by (simp add: called_def chain_device_def chain_ifaddr_def)
  have a2: "Assign_device (chain_device r 1)
      \<lparr>m_network = ipv4_of 172 20 r 0, m_mask = ipv4_of 255 255 255 0, m_address = 2\<rparr> ?st2 =
      Inr (\<lparr>m_network = ipv4_of 172 20 r 0, m_mask = ipv4_of 255 255 255 0, m_address = 3\<rparr>,
           ?st3)"
    using assms(5) Assign_device_ok [OF _ _ f2, of "chain_device r 1"]
    by (simp add: called_def chain_device_def chain_ifaddr_def)
  have "?st3 = st\<lparr>channels := channels st @ [chain_link d r],
                ifaddrs := ifaddrs st @ inner_ifaddrs r,
                trace := trace st @ inner_calls r\<rparr>"
    by (simp add: called_def inner_ifaddrs_def inner_calls_def)
  then show ?thesis
    by (simp add: a1 a2 del: One_nat_def)
qed

lemma link_loop_closed:
  assumes "unat n \<le> 63" and "1 \<le> unat r" and "unat r \<le> unat n"
    and "length (channels st) = unat r" and "stack_nodes st = [1..<unat n + 1]"
    and "below (unat r) st"
  shows "\<exists>h'. link_loop r n [0..<unat n + 2] \<lparr>DataRate = ''1000Mbps'', Delay = d\<rparr> h st =
    Some (Inr (h', st\<lparr>channels := channels st @ map (chain_link d) [unat r..<unat n],
                      ifaddrs := ifaddrs st @ concat (map inner_ifaddrs [unat r..<unat n]),
                      trace := trace st @ concat (map inner_calls [unat r..<unat n])\<rparr>))"
  using assms(2-6)
proof (induction k \<equiv> "unat n - unat r" arbitrary: r st h)
  case 0
  then have e: "unat r = unat n" by simp
  have cond: "\<not> uint r < uint n"
    using e unfolding uint_less by simp
  have "link_loop r n [0..<unat n + 2] \<lparr>DataRate = ''1000Mbps'', Delay = d\<rparr> h st =
      Some (Inr (h, st))"
    by (subst link_loop.simps) (simp only: cond if_False)
  then show ?case using e by simp
next
  case (Suc k)
  let ?csma = "\<lparr>DataRate = ''1000Mbps'', Delay = d\<rparr>"
  let ?R = "unat r"
  have lt: "?R < unat n" using Suc.hyps(2) by simp
  have cond: "uint r < uint n"
    using lt unfolding uint_less by simp
  have r1: "unat (r + 1) = Suc ?R" using lt assms(1) by (simp add: unat_succ16)
  have R256: "?R < 256" using lt assms(1) by simp
  let ?st1 = "called (CsmaInstall [?R, Suc ?R]) (st\<lparr>channels := channels st @ [chain_link d ?R]\<rparr>)"
  let ?st3 = "st\<lparr>channels := channels st @ [chain_link d ?R],
                ifaddrs := ifaddrs st @ inner_ifaddrs ?R,
                trace := trace st @ inner_calls ?R\<rparr>"
  have get0: "Get [0..<unat n + 2] ?R = Inr ?R"
    using lt by (intro Get_nodes) simp
  have get1: "Get [0..<unat n + 2] (?R + 1) = Inr (Suc ?R)"
    using lt Get_nodes [of "Suc ?R" "unat n + 2"] by simp
  have inst: "csma_Install ?csma [?R, Suc ?R] st = ([chain_device ?R 0, chain_device ?R 1], ?st1)"
    using Suc.prems(3) by (rule csma_Install_chain)
  have sb: "SetBase (''172.20.'' @ to_string ?R @ ''.0'') ''255.255.255.0'' =
      Inr \<lparr>m_network = ipv4_of 172 20 ?R 0, m_mask = ipv4_of 255 255 255 0, m_address = 1\<rparr>"
    using R256 by (rule SetBase_subnet)
  have "?R \<in> set (stack_nodes st)" "Suc ?R \<in> set (stack_nodes st)"
    using Suc.prems(1,4) lt by auto
  then obtain h1 where asg: "Assign [chain_device ?R 0, chain_device ?R 1]
      \<lparr>m_network = ipv4_of 172 20 ?R 0, m_mask = ipv4_of 255 255 255 0, m_address = 1\<rparr> ?st1 =
      Inr (h1, ?st3)"
    using inner_step [OF R256 Suc.prems(3) Suc.prems(5), of d] by blast
  have step: "bindE (Get [0..<unat n + 2] ?R) (\<lambda>n0.
           bindE (Get [0..<unat n + 2] (?R + 1)) (\<lambda>n1.
             let link = [n0, n1];
                 (linkDevices, st1) = csma_Install ?csma link st
             in
           bindE (SetBase (''172.20.'' @ to_string ?R @ ''.0'') ''255.255.255.0'')
             (\<lambda>addresses1.
           Assign linkDevices addresses1 st1))) = Inr (h1, ?st3)"
    by (simp only: get0 get1 bindE_def sum.case Let_def inst prod.case sb asg)
  have unfold: "link_loop r n [0..<unat n + 2] ?csma h st =
      link_loop (r + 1) n [0..<unat n + 2] ?csma h1 ?st3"
    by (subst link_loop.simps) (simp only: cond if_True step sum.case prod.case)
  have "below (unat (r + 1)) ?st3"
    unfolding r1 using Suc.prems(5) by (rule below_inner) simp
  moreover have "length (channels ?st3) = unat (r + 1)"
    using Suc.prems(3) r1 by simp
  moreover have "stack_nodes ?st3 = [1..<unat n + 1]"
    using Suc.prems(4) by simp
  moreover have "k = unat n - unat (r + 1)" "1 \<le> unat (r + 1)" "unat (r + 1) \<le> unat n"
    using Suc.hyps(2) lt r1 by simp_all
  ultimately obtain h' where IH: "link_loop (r + 1) n [0..<unat n + 2] ?csma h1 ?st3 =
      Some (Inr (h', ?st3\<lparr>channels := channels ?st3 @ map (chain_link d) [unat (r + 1)..<unat n],
                      ifaddrs := ifaddrs ?st3 @ concat (map inner_ifaddrs [unat (r + 1)..<unat n]),
                      trace := trace ?st3 @ concat (map inner_calls [unat (r + 1)..<unat n])\<rparr>))"
    using Suc.hyps(1) [of "r + 1" ?st3 h1] by blast
  have "?st3\<lparr>channels := channels ?st3 @ map (chain_link d) [unat (r + 1)..<unat n],
             ifaddrs := ifaddrs ?st3 @ concat (map inner_ifaddrs [unat (r + 1)..<unat n]),
             trace := trace ?st3 @ concat (map inner_calls [unat (r + 1)..<unat n])\<rparr> =
      st\<lparr>channels := channels st @ map (chain_link d) [?R..<unat n],
         ifaddrs := ifaddrs st @ concat (map inner_ifaddrs [?R..<unat n]),
         trace := trace st @ concat (map inner_calls [?R..<unat n])\<rparr>"
    using lt r1 by (simp add: upt_conv_Cons)
  then show ?case
    using unfold IH by simp
qed

section \<open>The state \<open>main\<close> computes\<close>

lemma Get_0: "Get (x # xs) 0 = Inr x"
  by (simp add: Get_def)

lemma Get_1: "Get [x, y] 1 = Inr y"
  by (simp add: Get_def)

lemma valid_word:
  assumes "1 \<le> unat (n :: 16 word)" and "unat n \<le> 63"
  shows "(n = 0) = False" and "(63 < n) = False"
proof -
  show "(n = 0) = False" using assms(1) by (auto simp add: unat_eq_0)
  show "(63 < n) = False" using assms(2) by (simp add: word_less_nat_alt)
qed

lemma below_chain_prefix:
  assumes "1 \<le> N"
  shows "below N (st\<lparr>ifaddrs := chain_ifaddr 0 1 1 # concat (map inner_ifaddrs [1..<N])\<rparr>)"
  unfolding below_def
proof
  fix a
  assume "a \<in> set (ifaddrs (st\<lparr>ifaddrs := chain_ifaddr 0 1 1 #
    concat (map inner_ifaddrs [1..<N])\<rparr>))"
  then consider "a = chain_ifaddr 0 1 1"
    | l where "l < N" and "a = chain_ifaddr l 0 1"
    | l where "l < N" and "a = chain_ifaddr l 1 2"
    by (auto simp add: inner_ifaddrs_def)
  then show "\<exists>j<N. ia_local a AND ipv4_of 255 255 255 0 = ipv4_of 172 20 j 0"
  proof cases
    case 1
    then show ?thesis
      using assms chain_ifaddr_network [of 1 0 1] by (intro exI [of _ 0]) simp
  next
    case 2
    then show ?thesis
      using chain_ifaddr_network [of 1 l 0] by (intro exI [of _ l]) simp
  next
    case 3
    then show ?thesis
      using chain_ifaddr_network [of 2 l 1] by (intro exI [of _ l]) simp
  qed
qed

lemma upt_chain: "1 \<le> N \<Longrightarrow> [0..<Suc N] = 0 # [Suc 0..<N] @ [N]"
  by (simp add: upt_conv_Cons)

lemma main_valid:
  assumes lo: "1 \<le> unat n" and hi: "unat n \<le> 63"
  shows "main rs d n = Some (Inr (0, chain rs d (unat n)))"
proof -
  let ?N = "unat n"
  let ?csma = "\<lparr>DataRate = ''1000Mbps'', Delay = d\<rparr>"
  let ?h1 = "\<lambda>i. \<lparr>m_network = ipv4_of 172 20 i 0, m_mask = ipv4_of 255 255 255 0, m_address = 1\<rparr>"
  let ?h2 = "\<lambda>i. \<lparr>m_network = ipv4_of 172 20 i 0, m_mask = ipv4_of 255 255 255 0, m_address = 2\<rparr>"
  let ?B = "[BindGlobal ''SimulatorImplementationType'' ''ns3::RealtimeSimulatorImpl'',
      BindGlobal ''ChecksumEnabled'' ''true'',
      SetDefault ''ns3::RealtimeSimulatorImpl::SynchronizationMode'' ''BestEffort'']"
  define st4 where "st4 = sim0\<lparr>node_count := ?N + 2, trace := ?B @ [CreateNodes (2 + ?N)]\<rparr>"
  define st5 where "st5 = st4\<lparr>channels := [chain_link d 0],
    trace := trace st4 @ [CsmaInstall [0, Suc 0]]\<rparr>"
  define st6 where "st6 = st5\<lparr>stack_nodes := [1..<?N + 1],
    trace := trace st5 @ map StackInstall [1..<?N + 1]\<rparr>"
  define st7 where "st7 = st6\<lparr>ifaddrs := [chain_ifaddr 0 1 1],
    trace := trace st6 @ [AssignAddr (chain_device 0 1) (ipv4_of 172 20 0 0 OR 1)]\<rparr>"
  define st8 where "st8 = st7\<lparr>channels := channels st7 @ map (chain_link d) [1..<?N],
    ifaddrs := ifaddrs st7 @ concat (map inner_ifaddrs [1..<?N]),
    trace := trace st7 @ concat (map inner_calls [1..<?N])\<rparr>"
  define st9 where "st9 = called (CsmaInstall [?N, Suc ?N])
    (st8\<lparr>channels := channels st8 @ [chain_link d ?N]\<rparr>)"
  define st10 where "st10 = called (AssignAddr (chain_device ?N 0) (ipv4_of 172 20 ?N 0 OR 1))
    (st9\<lparr>ifaddrs := ifaddrs st9 @ [chain_ifaddr ?N 0 1]\<rparr>)"
  have valid: "(n = 0) = False" "(63 < n) = False"
    using lo hi by (rule valid_word)+
  have nz: "(n \<noteq> 0) = True"
    using valid(1) by simp
  have create: "Create (2 + ?N)
      (called (SetDefault ''ns3::RealtimeSimulatorImpl::SynchronizationMode'' ''BestEffort'')
        (called (BindGlobal ''ChecksumEnabled'' ''true'')
          (called (BindGlobal ''SimulatorImplementationType'' ''ns3::RealtimeSimulatorImpl'')
            sim0))) = ([0..<?N + 2], st4)"
    by (simp add: Create_def called_def sim0_def st4_def)
  have get0: "Get [0..<?N + 2] 0 = Inr 0"
    by (rule Get_nodes) simp
  have get1: "Get [0..<?N + 2] 1 = Inr (Suc 0)"
    using Get_nodes [of 1 "?N + 2"] by simp
  have getN: "Get [0..<?N + 2] ?N = Inr ?N"
    by (rule Get_nodes) simp
  have getN1: "Get [0..<?N + 2] (?N + 1) = Inr (Suc ?N)"
    using Get_nodes [of "?N + 1" "?N + 2"] by simp
  have inst1: "csma_Install ?csma [0, Suc 0] st4 = ([chain_device 0 0, chain_device 0 1], st5)"
    using csma_Install_chain [of st4 0 d] by (simp add: st4_def st5_def sim0_def called_def)
  have loop1: "stack_loop 1 n [0..<?N + 2] st5 = Some (Inr st6)"
    using stack_loop_closed [OF hi, of 1 st5] lo
    by (simp add: st6_def st5_def st4_def sim0_def)
  have e6: "ifaddrs st6 = []"
    by (simp add: st6_def st5_def st4_def sim0_def)
  then have "ipv4_of 172 20 0 0 OR 1 \<notin> ia_local ` set (ifaddrs st6)"
    by simp
  moreover have "dev_node (chain_device 0 1) \<in> set (stack_nodes st6)"
    using lo by (auto simp add: st6_def chain_device_def)
  ultimately have "Assign_device (chain_device 0 1) (?h1 0) st6 = Inr (?h2 0, st7)"
    using Assign_device_ok [of "chain_device 0 1" st6 1 0]
    by (simp add: st7_def chain_ifaddr_def called_def e6)
  then have asg1: "Assign [chain_device 0 1] (?h1 0) st6 = Inr (?h2 0, st7)"
    by simp
  have "below 1 st7"
    using chain_ifaddr_network [of 1 0 1]
    by (simp add: below_def st7_def st6_def st5_def st4_def sim0_def)
  moreover have "length (channels st7) = 1" "stack_nodes st7 = [1..<?N + 1]"
    by (simp_all add: st7_def st6_def st5_def)
  ultimately obtain h' where loop2: "link_loop 1 n [0..<?N + 2] ?csma (?h2 0) st7 =
      Some (Inr (h', st8))"
    using link_loop_closed [OF hi, of 1 st7 d "?h2 0"] lo
    by (auto simp add: st8_def)
  have "length (channels st8) = ?N"
    using lo by (simp add: st8_def st7_def st6_def st5_def)
  then have inst2: "csma_Install ?csma [?N, Suc ?N] st8 =
      ([chain_device ?N 0, chain_device ?N 1], st9)"
    unfolding st9_def by (rule csma_Install_chain)
  have sbN: "SetBase (''172.20.'' @ to_string ?N @ ''.0'') ''255.255.255.0'' = Inr (?h1 ?N)"
    using hi by (intro SetBase_subnet) simp
  have "below ?N (st9\<lparr>ifaddrs := chain_ifaddr 0 1 1 # concat (map inner_ifaddrs [1..<?N])\<rparr>)"
    using lo by (rule below_chain_prefix)
  moreover have "st9\<lparr>ifaddrs := chain_ifaddr 0 1 1 # concat (map inner_ifaddrs [1..<?N])\<rparr> = st9"
    by (simp add: st9_def st8_def st7_def called_def)
  ultimately have "below ?N st9" by simp
  then have "ipv4_of 172 20 ?N 0 OR 1 \<notin> ia_local ` set (ifaddrs st9)"
    using hi by (intro below_fresh) simp_all
  moreover have "dev_node (chain_device ?N 0) \<in> set (stack_nodes st9)"
    using lo by (auto simp add: st9_def st8_def st7_def st6_def called_def chain_device_def)
  ultimately have "Assign_device (chain_device ?N 0) (?h1 ?N) st9 = Inr (?h2 ?N, st10)"
    using Assign_device_ok [of "chain_device ?N 0" st9 1 ?N]
    by (simp add: st10_def chain_ifaddr_def)
  then have asg2: "Assign [chain_device ?N 0] (?h1 ?N) st9 = Inr (?h2 ?N, st10)"
    by simp
  have final: "called SimDestroy (called SimRun (called (SimStop rs)
      (called PopulateRoutingTables
        (tapBridge_Install (\<lparr>Mode = ''UseBridge'', DeviceName = ''ns3_em0''\<rparr>
            \<lparr>DeviceName := ''ns3_em1''\<rparr>) (Suc ?N) (chain_device ?N 1)
          (tapBridge_Install \<lparr>Mode = ''UseBridge'', DeviceName = ''ns3_em0''\<rparr> 0
            (chain_device 0 0) st10))))) = chain rs d ?N"
    using lo
    by (simp add: chain_def chain_calls_def chain_setup_def st10_def st9_def st8_def st7_def st6_def st5_def
        st4_def sim0_def called_def tapBridge_Install_def upt_chain del: upt_Suc)
  show ?thesis
    unfolding main_def
    by (simp only: Let_def valid nz simp_thms if_False if_True create prod.case bindR_def
        liftE_def option.case sum.case get0 get1 getN getN1 inst1 Get_0 Get_1 loop1
        SetBase_first asg1 loop2 append_Cons append_Nil inst2
        sbN [unfolded append_Cons append_Nil] asg2 final)
qed

lemma main_invalid:
  assumes "n = 0 \<or> 63 < n"
  shows "main rs d n = Some (Inr (1, called (LogError ''Invalid router count'') sim0))"
  using assms by (simp add: main_def)

lemma chain_channels_nth: "l \<le> N \<Longrightarrow> channels (chain rs d N) ! l = chain_link d l"
  by (simp add: chain_def nth_append del: upt_Suc)

lemma chain_link_device:
  "l \<le> N \<Longrightarrow> k \<le> 1 \<Longrightarrow> link_device (chain rs d N) l k = chain_device l k"
  by (cases k) (simp_all add: link_device_def chain_channels_nth chain_link_def)

lemma chain_is_Router: "1 \<le> i \<Longrightarrow> i \<le> N \<Longrightarrow> is_Router (chain rs d N) i"
  by (auto simp add: is_Router_def chain_def)

lemma chain_is_OsBridgeEndpoint:
  "is_OsBridgeEndpoint (chain rs d N) 0" "is_OsBridgeEndpoint (chain rs d N) (Suc N)"
  by (auto simp add: is_OsBridgeEndpoint_def chain_def)

section \<open>Properties of the chain\<close>

lemma chain_device_eq [simp]:
  "(chain_device l k = chain_device l' k') = (l = l' \<and> k = k')"
  by (auto simp add: chain_device_def)

lemma ia_dev_chain_ifaddr [simp]: "ia_dev (chain_ifaddr l k h) = chain_device l k"
  by (simp add: chain_ifaddr_def)

lemma chain_addressed_devices:
  "set (map ia_dev (ifaddrs (chain rs d N))) =
     {chain_device 0 1} \<union> (\<Union>l\<in>{1..<N}. {chain_device l 0, chain_device l 1}) \<union>
     {chain_device N 0}"
  by (simp add: chain_def inner_ifaddrs_def image_Un image_UN Un_commute insert_commute)

lemma chain_addressed:
  "addressed (chain rs d N) (chain_device l k) =
     (l = 0 \<and> k = 1 \<or> 1 \<le> l \<and> l < N \<and> (k = 0 \<or> k = 1) \<or> l = N \<and> k = 0)"
  unfolding addressed_def chain_addressed_devices by auto

lemma block_of_chain_ifaddr:
  "h = 1 \<or> h = 2 \<Longrightarrow> block_of (chain_ifaddr l k h) = SubnetBlock l"
  using chain_ifaddr_network [of h l k]
  by (simp add: block_of_def SubnetBlock_def) (simp add: chain_ifaddr_def)

lemma chain_link_blocks:
  assumes "1 \<le> N" and "l \<le> N"
  shows "set (link_blocks (chain rs d N) l) = {SubnetBlock l}"
proof -
  have dev: "set (ch_devices (channels (chain rs d N) ! l)) = {chain_device l 0, chain_device l 1}"
    using assms(2) by (simp add: chain_channels_nth chain_link_def)
  have "set (link_blocks (chain rs d N) l) \<subseteq> {SubnetBlock l}"
    unfolding link_blocks_def dev
    by (auto simp add: chain_def inner_ifaddrs_def block_of_chain_ifaddr)
  moreover have "SubnetBlock l \<in> set (link_blocks (chain rs d N) l)"
  proof -
    consider "l = 0" | "1 \<le> l" "l < N" | "l = N" using assms(2) by linarith
    then obtain k h where kh: "h = 1 \<or> h = 2" "k = 0 \<or> k = 1"
      "chain_ifaddr l k h \<in> set (ifaddrs (chain rs d N))"
    proof cases
      case 1
      then have "chain_ifaddr l 1 1 \<in> set (ifaddrs (chain rs d N))"
        by (simp add: chain_def)
      then show ?thesis using that [of 1 1] by simp
    next
      case 2
      then have "chain_ifaddr l 0 1 \<in> set (ifaddrs (chain rs d N))"
        by (auto simp add: chain_def inner_ifaddrs_def)
      then show ?thesis using that [of 1 0] by simp
    next
      case 3
      then have "chain_ifaddr l 0 1 \<in> set (ifaddrs (chain rs d N))"
        by (simp add: chain_def)
      then show ?thesis using that [of 1 0] by simp
    qed
    then have "block_of (chain_ifaddr l k h) \<in> set (link_blocks (chain rs d N) l)"
      unfolding link_blocks_def dev by auto
    then show ?thesis using kh(1) by (simp add: block_of_chain_ifaddr)
  qed
  ultimately show ?thesis by auto
qed

lemma SubnetBlock_disjoint:
  assumes "i < 256" and "j < 256" and "i \<noteq> j"
  shows "block_addresses (SubnetBlock i) \<inter> block_addresses (SubnetBlock j) = {}"
proof -
  have "ipv4_of 172 20 i 0 \<noteq> ipv4_of 172 20 j 0"
    using assms subnet_inj by blast
  then show ?thesis
    by (auto simp add: block_addresses_def SubnetBlock_def)
qed

lemma taps_StackInstall: "filter is_TapInstall (map StackInstall xs) = []"
  by (induction xs) simp_all

lemma taps_inner_calls: "filter is_TapInstall (concat (map inner_calls xs)) = []"
  by (induction xs) (simp_all add: inner_calls_def)

lemma assigns_StackInstall: "filter is_AssignAddr (map StackInstall xs) = []"
  by (induction xs) simp_all

lemma assigns_inner_calls:
  "filter is_AssignAddr (concat (map inner_calls xs)) =
     map (\<lambda>a. AssignAddr (ia_dev a) (ia_local a)) (concat (map inner_ifaddrs xs))"
  by (induction xs) (simp_all add: inner_calls_def inner_ifaddrs_def chain_ifaddr_def)

lemma chain_calls_split:
  "chain_calls rs N = chain_setup N @ PopulateRoutingTables # [SimStop rs, SimRun, SimDestroy]"
  by (simp add: chain_calls_def)

lemma chain_setup_no_populate: "PopulateRoutingTables \<notin> set (chain_setup N)"
  by (auto simp add: chain_setup_def inner_calls_def)

lemma chain_setup_no_run: "SimRun \<notin> set (chain_setup N)"
  by (auto simp add: chain_setup_def inner_calls_def)

lemma chain_setup_assigns:
  "filter is_AssignAddr (chain_setup N) =
     map (\<lambda>a. AssignAddr (ia_dev a) (ia_local a)) (ifaddrs (chain rs d N))"
  by (simp add: chain_setup_def chain_def assigns_StackInstall assigns_inner_calls
      chain_ifaddr_def del: upt_Suc)

lemma chain_taps:
  "filter is_TapInstall (trace (chain rs d N)) =
     [TapInstall 0 (chain_device 0 0), TapInstall (Suc N) (chain_device N 1)]"
  by (simp add: chain_def chain_calls_def chain_setup_def taps_StackInstall taps_inner_calls
      del: upt_Suc)

lemma main_one: "main rs d 1 = Some (Inr (0, chain rs d 1))"
  using main_valid [of 1 rs d] by simp

lemma chain_one_ifaddrs:
  "ifaddrs (chain rs d (Suc 0)) = [chain_ifaddr 0 (Suc 0) 1, chain_ifaddr (Suc 0) 0 1]"
  by (simp add: chain_def)

lemma chain_one_devices:
  "link_device (chain rs d (Suc 0)) 0 0 = chain_device 0 0"
  "link_device (chain rs d (Suc 0)) 0 (Suc 0) = chain_device 0 (Suc 0)"
  "link_device (chain rs d (Suc 0)) (Suc 0) 0 = chain_device (Suc 0) 0"
  "link_device (chain rs d (Suc 0)) (Suc 0) (Suc 0) = chain_device (Suc 0) (Suc 0)"
  by (simp_all add: chain_link_device)

lemma chain_one_link_blocks:
  "link_blocks (chain rs d (Suc 0)) 0 = [SubnetBlock 0]"
  "link_blocks (chain rs d (Suc 0)) (Suc 0) = [SubnetBlock (Suc 0)]"
  by (simp_all add: link_blocks_def chain_channels_nth chain_one_ifaddrs chain_link_def
      block_of_chain_ifaddr)

section \<open>The claims\<close>

text \<open>
  C1. For every router count from 1 to 63, \<open>main\<close> returns with exit code 0 and has
  created exactly routerCount + 2 endpoints and routerCount + 1 links; endpoint 0 and
  endpoint routerCount + 1 are OS bridge endpoints, the endpoints 1 to routerCount are
  routers, and link \<open>l\<close> joins endpoint \<open>l\<close> to endpoint \<open>l + 1\<close>.
\<close>

theorem C1_chain_shape:
  assumes "1 \<le> unat n" and "unat n \<le> 63"
  shows "\<exists>st. main rs d n = Some (Inr (0, st)) \<and>
    node_count st = unat n + 2 \<and>
    length (channels st) = unat n + 1 \<and>
    is_OsBridgeEndpoint st 0 \<and>
    is_OsBridgeEndpoint st (unat n + 1) \<and>
    (\<forall>i. 1 \<le> i \<and> i \<le> unat n \<longrightarrow> is_Router st i) \<and>
    (\<forall>l. l \<le> unat n \<longrightarrow> map dev_node (ch_devices (channels st ! l)) = [l, l + 1])"
proof -
  let ?st = "chain rs d (unat n)"
  have "main rs d n = Some (Inr (0, ?st))"
    using assms by (rule main_valid)
  moreover have "node_count ?st = unat n + 2" "length (channels ?st) = unat n + 1"
    by (simp_all add: chain_def)
  moreover have "is_OsBridgeEndpoint ?st 0" "is_OsBridgeEndpoint ?st (unat n + 1)"
    using chain_is_OsBridgeEndpoint [of rs d "unat n"] by simp_all
  moreover have "\<forall>i. 1 \<le> i \<and> i \<le> unat n \<longrightarrow> is_Router ?st i"
    by (simp add: chain_is_Router)
  moreover have "\<forall>l. l \<le> unat n \<longrightarrow> map dev_node (ch_devices (channels ?st ! l)) = [l, l + 1]"
    by (simp add: chain_channels_nth chain_link_def chain_device_def)
  ultimately show ?thesis by blast
qed

theorem C1_chain_shape_witness:
  "1 \<le> unat (3 :: 16 word) \<and> unat (3 :: 16 word) \<le> 63 \<and>
   (\<exists>st. main 100 50000 3 = Some (Inr (0, st)) \<and>
     node_count st = 5 \<and> length (channels st) = 4 \<and>
     is_OsBridgeEndpoint st 0 \<and> is_OsBridgeEndpoint st 4 \<and>
     is_Router st 1 \<and> is_Router st 2 \<and> is_Router st 3 \<and>
     map dev_node (ch_devices (channels st ! 2)) = [2, 3])"
proof -
  have h: "1 \<le> unat (3 :: 16 word)" "unat (3 :: 16 word) \<le> 63"
    by simp_all
  from C1_chain_shape [OF h, of 100 50000] obtain st where
    st: "main 100 50000 3 = Some (Inr (0, st)) \<and>
      node_count st = unat (3 :: 16 word) + 2 \<and>
      length (channels st) = unat (3 :: 16 word) + 1 \<and>
      is_OsBridgeEndpoint st 0 \<and>
      is_OsBridgeEndpoint st (unat (3 :: 16 word) + 1) \<and>
      (\<forall>i. 1 \<le> i \<and> i \<le> unat (3 :: 16 word) \<longrightarrow> is_Router st i) \<and>
      (\<forall>l. l \<le> unat (3 :: 16 word) \<longrightarrow>
        map dev_node (ch_devices (channels st ! l)) = [l, l + 1])"
    by (rule exE)
  from st have r: "\<forall>i. 1 \<le> i \<and> i \<le> 3 \<longrightarrow> is_Router st i"
    and l: "\<forall>l. l \<le> 3 \<longrightarrow> map dev_node (ch_devices (channels st ! l)) = [l, l + 1]"
    by simp_all
  have "is_Router st 1" "is_Router st 2" "is_Router st 3"
    using spec [OF r, of 1] spec [OF r, of 2] spec [OF r, of 3] by simp_all
  moreover have "map dev_node (ch_devices (channels st ! 2)) = [2, 3]"
    using spec [OF l, of 2] by simp
  ultimately have "main 100 50000 3 = Some (Inr (0, st)) \<and>
     node_count st = 5 \<and> length (channels st) = 4 \<and>
     is_OsBridgeEndpoint st 0 \<and> is_OsBridgeEndpoint st 4 \<and>
     is_Router st 1 \<and> is_Router st 2 \<and> is_Router st 3 \<and>
     map dev_node (ch_devices (channels st ! 2)) = [2, 3]"
    using st by simp
  then have "\<exists>st. main 100 50000 3 = Some (Inr (0, st)) \<and>
     node_count st = 5 \<and> length (channels st) = 4 \<and>
     is_OsBridgeEndpoint st 0 \<and> is_OsBridgeEndpoint st 4 \<and>
     is_Router st 1 \<and> is_Router st 2 \<and> is_Router st 3 \<and>
     map dev_node (ch_devices (channels st ! 2)) = [2, 3]"
    by (intro exI [of _ st])
  with h show ?thesis by (intro conjI)
qed

text \<open>
  C2. For every valid router count, the addresses on the devices of link \<open>l\<close> (links
  numbered 0 to routerCount in creation order) all lie in the one SubnetBlock
  172.20.\<open>l\<close>.0/255.255.255.0, and the blocks of two different links have no address in
  common.
\<close>

theorem C2_subnet_per_link:
  assumes "1 \<le> unat n" and "unat n \<le> 63"
  shows "\<exists>st. main rs d n = Some (Inr (0, st)) \<and>
    (\<forall>l. l \<le> unat n \<longrightarrow>
       set (link_blocks st l) = {SubnetBlock l} \<and>
       Ipv4Address (''172.20.'' @ to_string l @ ''.0'') = Some (fst (SubnetBlock l)) \<and>
       Ipv4Address ''255.255.255.0'' = Some (snd (SubnetBlock l))) \<and>
    (\<forall>l m. l \<le> unat n \<and> m \<le> unat n \<and> l \<noteq> m \<longrightarrow>
       (\<forall>b \<in> set (link_blocks st l). \<forall>b' \<in> set (link_blocks st m).
          block_addresses b \<inter> block_addresses b' = {}))"
proof -
  let ?st = "chain rs d (unat n)"
  have "main rs d n = Some (Inr (0, ?st))"
    using assms by (rule main_valid)
  moreover have blocks: "set (link_blocks ?st l) = {SubnetBlock l}" if "l \<le> unat n" for l
    using assms(1) that by (rule chain_link_blocks)
  moreover have "Ipv4Address (''172.20.'' @ to_string l @ ''.0'') = Some (fst (SubnetBlock l))"
    if "l \<le> unat n" for l
    using that assms(2) Ipv4Address_subnet [of l] by (simp add: SubnetBlock_def)
  moreover have "Ipv4Address ''255.255.255.0'' = Some (snd (SubnetBlock l))" for l
    by (simp add: Ipv4Address_mask SubnetBlock_def)
  moreover have "\<forall>b \<in> set (link_blocks ?st l). \<forall>b' \<in> set (link_blocks ?st m).
      block_addresses b \<inter> block_addresses b' = {}"
    if "l \<le> unat n" "m \<le> unat n" "l \<noteq> m" for l m
    using that assms(2) SubnetBlock_disjoint [of l m] by (simp add: blocks)
  ultimately show ?thesis by (intro exI [of _ ?st]) simp
qed

theorem C2_subnet_per_link_witness:
  "1 \<le> unat (3 :: 16 word) \<and> unat (3 :: 16 word) \<le> 63 \<and>
   (\<exists>st. main 100 50000 3 = Some (Inr (0, st)) \<and>
     set (link_blocks st 0) = {SubnetBlock 0} \<and>
     set (link_blocks st 2) = {SubnetBlock 2} \<and>
     set (link_blocks st 3) = {SubnetBlock 3} \<and>
     SubnetBlock 2 = (0xAC140200, 0xFFFFFF00) \<and>
     Ipv4Address ''172.20.2.0'' = Some (fst (SubnetBlock 2)) \<and>
     block_addresses (SubnetBlock 2) \<inter> block_addresses (SubnetBlock 3) = {})"
proof -
  have h: "1 \<le> unat (3 :: 16 word)" "unat (3 :: 16 word) \<le> 63"
    by simp_all
  from C2_subnet_per_link [OF h, of 100 50000] obtain st where
    st: "main 100 50000 3 = Some (Inr (0, st)) \<and>
    (\<forall>l. l \<le> unat (3 :: 16 word) \<longrightarrow>
       set (link_blocks st l) = {SubnetBlock l} \<and>
       Ipv4Address (''172.20.'' @ to_string l @ ''.0'') = Some (fst (SubnetBlock l)) \<and>
       Ipv4Address ''255.255.255.0'' = Some (snd (SubnetBlock l))) \<and>
    (\<forall>l m. l \<le> unat (3 :: 16 word) \<and> m \<le> unat (3 :: 16 word) \<and> l \<noteq> m \<longrightarrow>
       (\<forall>b \<in> set (link_blocks st l). \<forall>b' \<in> set (link_blocks st m).
          block_addresses b \<inter> block_addresses b' = {}))"
    by (rule exE)
  then have per: "\<forall>l. l \<le> 3 \<longrightarrow>
       set (link_blocks st l) = {SubnetBlock l} \<and>
       Ipv4Address (''172.20.'' @ to_string l @ ''.0'') = Some (fst (SubnetBlock l)) \<and>
       Ipv4Address ''255.255.255.0'' = Some (snd (SubnetBlock l))"
    and dis: "\<forall>l m. l \<le> 3 \<and> m \<le> 3 \<and> l \<noteq> m \<longrightarrow>
       (\<forall>b \<in> set (link_blocks st l). \<forall>b' \<in> set (link_blocks st m).
          block_addresses b \<inter> block_addresses b' = {})"
    by simp_all
  have b: "set (link_blocks st 0) = {SubnetBlock 0}" "set (link_blocks st 2) = {SubnetBlock 2}"
    "set (link_blocks st 3) = {SubnetBlock 3}"
    using spec [OF per, of 0] spec [OF per, of 2] spec [OF per, of 3] by simp_all
  have s: "Ipv4Address ''172.20.2.0'' = Some (fst (SubnetBlock 2))"
    by (simp add: SubnetBlock_def Ipv4Address_def parse_octet_def parse_dec_def is_digit_def)
  have D: "\<forall>b \<in> set (link_blocks st 2). \<forall>b' \<in> set (link_blocks st 3).
      block_addresses b \<inter> block_addresses b' = {}"
    using spec [OF spec [OF dis, of 2], of 3] by simp
  have m2: "SubnetBlock 2 \<in> set (link_blocks st 2)"
    and m3: "SubnetBlock 3 \<in> set (link_blocks st 3)"
    by (simp_all add: b)
  have d: "block_addresses (SubnetBlock 2) \<inter> block_addresses (SubnetBlock 3) = {}"
    by (rule bspec [OF bspec [OF D m2] m3])
  have v: "SubnetBlock 2 = (0xAC140200, 0xFFFFFF00)"
    by (simp add: SubnetBlock_def ipv4_of_def)
  have "main 100 50000 3 = Some (Inr (0, st)) \<and>
     set (link_blocks st 0) = {SubnetBlock 0} \<and>
     set (link_blocks st 2) = {SubnetBlock 2} \<and>
     set (link_blocks st 3) = {SubnetBlock 3} \<and>
     SubnetBlock 2 = (0xAC140200, 0xFFFFFF00) \<and>
     Ipv4Address ''172.20.2.0'' = Some (fst (SubnetBlock 2)) \<and>
     block_addresses (SubnetBlock 2) \<inter> block_addresses (SubnetBlock 3) = {}"
    using st [THEN conjunct1] b s d v by (intro conjI)
  then have "\<exists>st. main 100 50000 3 = Some (Inr (0, st)) \<and>
     set (link_blocks st 0) = {SubnetBlock 0} \<and>
     set (link_blocks st 2) = {SubnetBlock 2} \<and>
     set (link_blocks st 3) = {SubnetBlock 3} \<and>
     SubnetBlock 2 = (0xAC140200, 0xFFFFFF00) \<and>
     Ipv4Address ''172.20.2.0'' = Some (fst (SubnetBlock 2)) \<and>
     block_addresses (SubnetBlock 2) \<inter> block_addresses (SubnetBlock 3) = {}"
    by (intro exI [of _ st])
  with h show ?thesis by (intro conjI)
qed

text \<open>
  C3. For every valid router count, every link has two devices; on the first link only
  device 1 is addressed, on the last link only device 0, on every interior link both. The
  addressed devices of the first and last link sit on routers, the unaddressed ones on the
  OS bridge endpoints.
\<close>

theorem C3_addressed_devices:
  assumes "1 \<le> unat n" and "unat n \<le> 63"
  shows "\<exists>st. main rs d n = Some (Inr (0, st)) \<and>
    (\<forall>l. l \<le> unat n \<longrightarrow> length (ch_devices (channels st ! l)) = 2) \<and>
    addressed st (link_device st 0 1) \<and>
    \<not> addressed st (link_device st 0 0) \<and>
    addressed st (link_device st (unat n) 0) \<and>
    \<not> addressed st (link_device st (unat n) 1) \<and>
    (\<forall>l. 0 < l \<and> l < unat n \<longrightarrow>
       addressed st (link_device st l 0) \<and> addressed st (link_device st l 1)) \<and>
    is_Router st (dev_node (link_device st 0 1)) \<and>
    is_OsBridgeEndpoint st (dev_node (link_device st 0 0)) \<and>
    is_Router st (dev_node (link_device st (unat n) 0)) \<and>
    is_OsBridgeEndpoint st (dev_node (link_device st (unat n) 1))"
proof -
  let ?N = "unat n"
  let ?st = "chain rs d ?N"
  have "main rs d n = Some (Inr (0, ?st))"
    using assms by (rule main_valid)
  moreover have "\<forall>l. l \<le> ?N \<longrightarrow> length (ch_devices (channels ?st ! l)) = 2"
    by (simp add: chain_channels_nth chain_link_def)
  moreover have "addressed ?st (link_device ?st 0 1)" "\<not> addressed ?st (link_device ?st 0 0)"
    "addressed ?st (link_device ?st ?N 0)" "\<not> addressed ?st (link_device ?st ?N 1)"
    using assms(1) by (simp_all add: chain_link_device chain_addressed)
  moreover have "\<forall>l. 0 < l \<and> l < ?N \<longrightarrow>
      addressed ?st (link_device ?st l 0) \<and> addressed ?st (link_device ?st l 1)"
    by (simp add: chain_link_device chain_addressed)
  moreover have "is_Router ?st (dev_node (link_device ?st 0 1))"
    "is_Router ?st (dev_node (link_device ?st ?N 0))"
    using assms(1) by (simp_all add: chain_link_device chain_device_def chain_is_Router)
  moreover have "is_OsBridgeEndpoint ?st (dev_node (link_device ?st 0 0))"
    "is_OsBridgeEndpoint ?st (dev_node (link_device ?st ?N 1))"
    using chain_is_OsBridgeEndpoint [of rs d ?N]
    by (simp_all add: chain_link_device chain_device_def)
  ultimately show ?thesis by (intro exI [of _ ?st]) simp
qed

theorem C3_addressed_devices_witness:
  "1 \<le> unat (3 :: 16 word) \<and> unat (3 :: 16 word) \<le> 63 \<and>
   (\<exists>st. main 100 50000 3 = Some (Inr (0, st)) \<and>
     addressed st (link_device st 0 1) \<and>
     \<not> addressed st (link_device st 0 0) \<and>
     addressed st (link_device st 3 0) \<and>
     \<not> addressed st (link_device st 3 1) \<and>
     addressed st (link_device st 1 0) \<and> addressed st (link_device st 1 1) \<and>
     addressed st (link_device st 2 0) \<and> addressed st (link_device st 2 1) \<and>
     is_OsBridgeEndpoint st (dev_node (link_device st 0 0)) \<and>
     is_OsBridgeEndpoint st (dev_node (link_device st 3 1)))"
proof -
  have h: "1 \<le> unat (3 :: 16 word)" "unat (3 :: 16 word) \<le> 63"
    by simp_all
  from C3_addressed_devices [OF h, of 100 50000] obtain st where
    st: "main 100 50000 3 = Some (Inr (0, st)) \<and>
    (\<forall>l. l \<le> unat (3 :: 16 word) \<longrightarrow> length (ch_devices (channels st ! l)) = 2) \<and>
    addressed st (link_device st 0 1) \<and>
    \<not> addressed st (link_device st 0 0) \<and>
    addressed st (link_device st (unat (3 :: 16 word)) 0) \<and>
    \<not> addressed st (link_device st (unat (3 :: 16 word)) 1) \<and>
    (\<forall>l. 0 < l \<and> l < unat (3 :: 16 word) \<longrightarrow>
       addressed st (link_device st l 0) \<and> addressed st (link_device st l 1)) \<and>
    is_Router st (dev_node (link_device st 0 1)) \<and>
    is_OsBridgeEndpoint st (dev_node (link_device st 0 0)) \<and>
    is_Router st (dev_node (link_device st (unat (3 :: 16 word)) 0)) \<and>
    is_OsBridgeEndpoint st (dev_node (link_device st (unat (3 :: 16 word)) 1))"
    by (rule exE)
  then have inner: "\<forall>l. 0 < l \<and> l < 3 \<longrightarrow>
       addressed st (link_device st l 0) \<and> addressed st (link_device st l 1)"
    by simp
  have i: "addressed st (link_device st 1 0)" "addressed st (link_device st 1 1)"
    "addressed st (link_device st 2 0)" "addressed st (link_device st 2 1)"
    using spec [OF inner, of 1] spec [OF inner, of 2] by simp_all
  have "main 100 50000 3 = Some (Inr (0, st)) \<and>
     addressed st (link_device st 0 1) \<and>
     \<not> addressed st (link_device st 0 0) \<and>
     addressed st (link_device st 3 0) \<and>
     \<not> addressed st (link_device st 3 1) \<and>
     addressed st (link_device st 1 0) \<and> addressed st (link_device st 1 1) \<and>
     addressed st (link_device st 2 0) \<and> addressed st (link_device st 2 1) \<and>
     is_OsBridgeEndpoint st (dev_node (link_device st 0 0)) \<and>
     is_OsBridgeEndpoint st (dev_node (link_device st 3 1))"
    using st i by (intro conjI) simp_all
  then have "\<exists>st. main 100 50000 3 = Some (Inr (0, st)) \<and>
     addressed st (link_device st 0 1) \<and>
     \<not> addressed st (link_device st 0 0) \<and>
     addressed st (link_device st 3 0) \<and>
     \<not> addressed st (link_device st 3 1) \<and>
     addressed st (link_device st 1 0) \<and> addressed st (link_device st 1 1) \<and>
     addressed st (link_device st 2 0) \<and> addressed st (link_device st 2 1) \<and>
     is_OsBridgeEndpoint st (dev_node (link_device st 0 0)) \<and>
     is_OsBridgeEndpoint st (dev_node (link_device st 3 1))"
    by (intro exI [of _ st])
  with h show ?thesis by (intro conjI)
qed

text \<open>
  C4, as amended. With one router the first link (endpoints 0 and 1) and the last link
  (endpoints 1 and 2) are two different links. The router has one device on each, and each
  of these two devices receives exactly one address: one in 172.20.0.0/24 on the first
  link, one in 172.20.1.0/24 on the last.
\<close>

theorem C4_single_router_two_links:
  "\<exists>st. main rs d 1 = Some (Inr (0, st)) \<and>
    length (channels st) = 2 \<and>
    channels st ! 0 \<noteq> channels st ! 1 \<and>
    link_device st 0 1 \<noteq> link_device st 1 0 \<and>
    dev_node (link_device st 0 1) = 1 \<and>
    dev_node (link_device st 1 0) = 1 \<and>
    map block_of (filter (\<lambda>a. ia_dev a = link_device st 0 1) (ifaddrs st)) = [SubnetBlock 0] \<and>
    map block_of (filter (\<lambda>a. ia_dev a = link_device st 1 0) (ifaddrs st)) = [SubnetBlock 1] \<and>
    link_blocks st 0 = [SubnetBlock 0] \<and>
    link_blocks st 1 = [SubnetBlock 1]"
proof -
  let ?st = "chain rs d 1"
  have "length (channels ?st) = 2" "channels ?st ! 0 \<noteq> channels ?st ! 1"
    using chain_channels_nth [of 0 1 rs d] chain_channels_nth [of 1 1 rs d]
    by (simp_all add: chain_def chain_link_def)
  moreover have "link_device ?st 0 1 \<noteq> link_device ?st 1 0"
    "dev_node (link_device ?st 0 1) = 1" "dev_node (link_device ?st 1 0) = 1"
    by (simp_all add: chain_one_devices) (simp_all add: chain_device_def)
  moreover have
    "map block_of (filter (\<lambda>a. ia_dev a = link_device ?st 0 1) (ifaddrs ?st)) = [SubnetBlock 0]"
    "map block_of (filter (\<lambda>a. ia_dev a = link_device ?st 1 0) (ifaddrs ?st)) = [SubnetBlock 1]"
    by (simp_all add: chain_one_devices chain_one_ifaddrs block_of_chain_ifaddr)
  ultimately show ?thesis
    using main_one [of rs d] chain_one_link_blocks [of rs d]
    by (intro exI [of _ ?st]) simp
qed

text \<open>
  C4, as stated, fails with \<open>routers = 1\<close>: the first and the last link of the chain are
  not the same link, the router-side devices of the two are different devices, and the
  router receives two addresses, one per device.
\<close>

theorem C4_same_link_counterexample:
  "\<exists>st. main 100 50000 1 = Some (Inr (0, st)) \<and>
    length (channels st) = 2 \<and>
    hd (channels st) \<noteq> last (channels st) \<and>
    link_device st 0 1 \<noteq> link_device st (unat (1 :: 16 word)) 0 \<and>
    length (filter (\<lambda>a. dev_node (ia_dev a) = 1) (ifaddrs st)) = 2"
proof -
  let ?st = "chain 100 50000 1"
  have "length (channels ?st) = 2" "hd (channels ?st) \<noteq> last (channels ?st)"
    by (simp_all add: chain_def chain_link_def)
  moreover have "link_device ?st 0 1 \<noteq> link_device ?st (unat (1 :: 16 word)) 0"
    by (simp add: chain_one_devices)
  moreover have "length (filter (\<lambda>a. dev_node (ia_dev a) = 1) (ifaddrs ?st)) = 2"
    by (simp add: chain_one_ifaddrs) (simp add: chain_device_def)
  ultimately show ?thesis
    using main_one [of 100 50000]
    by (intro exI [of _ ?st]) simp
qed

text \<open>
  C5. With one router \<open>main\<close> builds exactly 3 endpoints (OS bridge, router, OS bridge)
  and 2 links, and assigns exactly 2 addresses, the first in 172.20.0.0/24 and the second in
  172.20.1.0/24, to the router's device on the first link and to its device on the last
  link; the devices on endpoints 0 and 2 carry no address.
\<close>

theorem C5_single_router:
  "\<exists>st. main rs d 1 = Some (Inr (0, st)) \<and>
    node_count st = 3 \<and>
    is_OsBridgeEndpoint st 0 \<and> is_Router st 1 \<and> is_OsBridgeEndpoint st 2 \<and>
    length (channels st) = 2 \<and>
    map block_of (ifaddrs st) = [SubnetBlock 0, SubnetBlock 1] \<and>
    Ipv4Address ''172.20.0.0'' = Some (fst (SubnetBlock 0)) \<and>
    Ipv4Address ''172.20.1.0'' = Some (fst (SubnetBlock 1)) \<and>
    Ipv4Address ''255.255.255.0'' = Some (snd (SubnetBlock 0)) \<and>
    Ipv4Address ''255.255.255.0'' = Some (snd (SubnetBlock 1)) \<and>
    map ia_dev (ifaddrs st) = [link_device st 0 1, link_device st 1 0] \<and>
    dev_node (link_device st 0 1) = 1 \<and>
    dev_node (link_device st 1 0) = 1 \<and>
    \<not> addressed st (link_device st 0 0) \<and>
    \<not> addressed st (link_device st 1 1) \<and>
    dev_node (link_device st 0 0) = 0 \<and>
    dev_node (link_device st 1 1) = 2"
proof -
  let ?st = "chain rs d 1"
  have "node_count ?st = 3" "length (channels ?st) = 2"
    by (simp_all add: chain_def)
  moreover have "is_OsBridgeEndpoint ?st 0" "is_Router ?st 1" "is_OsBridgeEndpoint ?st 2"
    using chain_is_OsBridgeEndpoint [of rs d 1] chain_is_Router [of 1 1 rs d]
    by (simp_all add: numeral_2_eq_2)
  moreover have "map block_of (ifaddrs ?st) = [SubnetBlock 0, SubnetBlock 1]"
    by (simp add: chain_one_ifaddrs block_of_chain_ifaddr)
  moreover have "Ipv4Address ''172.20.0.0'' = Some (fst (SubnetBlock 0))"
    "Ipv4Address ''172.20.1.0'' = Some (fst (SubnetBlock 1))"
    "Ipv4Address ''255.255.255.0'' = Some (snd (SubnetBlock 0))"
    "Ipv4Address ''255.255.255.0'' = Some (snd (SubnetBlock 1))"
    by (simp_all add: SubnetBlock_def Ipv4Address_def parse_octet_def parse_dec_def is_digit_def)
  moreover have "map ia_dev (ifaddrs ?st) = [link_device ?st 0 1, link_device ?st 1 0]"
    by (simp add: chain_one_devices chain_one_ifaddrs)
  moreover have "dev_node (link_device ?st 0 1) = 1" "dev_node (link_device ?st 1 0) = 1"
    "dev_node (link_device ?st 0 0) = 0" "dev_node (link_device ?st 1 1) = 2"
    by (simp_all add: chain_one_devices) (simp_all add: chain_device_def)
  moreover have "\<not> addressed ?st (link_device ?st 0 0)" "\<not> addressed ?st (link_device ?st 1 1)"
    by (simp_all add: chain_one_devices chain_addressed)
  ultimately show ?thesis
    using main_one [of rs d]
    by (intro exI [of _ ?st]) simp
qed

text \<open>
  C6. With a router count of 0 or above 63, \<open>main\<close> returns exit code 1; its only effect
  is the logged error: no node, link, internet stack, address or bridge exists.
\<close>

theorem C6_invalid_router_count:
  assumes "n = 0 \<or> 63 < n"
  shows "\<exists>st. main rs d n = Some (Inr (1, st)) \<and>
    node_count st = 0 \<and> channels st = [] \<and> bridges st = [] \<and>
    stack_nodes st = [] \<and> ifaddrs st = [] \<and>
    trace st = [LogError ''Invalid router count'']"
  using main_invalid [OF assms, of rs d] by (simp add: called_def sim0_def)

theorem C6_invalid_router_count_witness:
  "((0 :: 16 word) = 0 \<or> 63 < (0 :: 16 word)) \<and>
   (\<exists>st. main 100 50000 0 = Some (Inr (1, st)) \<and>
     node_count st = 0 \<and> channels st = [] \<and> bridges st = [] \<and>
     stack_nodes st = [] \<and> ifaddrs st = [] \<and>
     trace st = [LogError ''Invalid router count'']) \<and>
   ((64 :: 16 word) = 0 \<or> 63 < (64 :: 16 word)) \<and>
   (\<exists>st. main 100 50000 64 = Some (Inr (1, st)) \<and>
     node_count st = 0 \<and> channels st = [] \<and> bridges st = [] \<and>
     stack_nodes st = [] \<and> ifaddrs st = [] \<and>
     trace st = [LogError ''Invalid router count''])"
proof -
  have z: "(0 :: 16 word) = 0 \<or> 63 < (0 :: 16 word)"
    and b: "(64 :: 16 word) = 0 \<or> 63 < (64 :: 16 word)"
    by simp_all
  show ?thesis
    using z b C6_invalid_router_count [OF z, of 100 50000]
      C6_invalid_router_count [OF b, of 100 50000]
    by (intro conjI)
qed

text \<open>
  C7. For every valid router count, the two tap bridges are installed, in this order, on
  device 0 of the first link (on endpoint 0, interface ns3_em0) and on device 1 of the last
  link (on endpoint routerCount + 1, interface ns3_em1); neither endpoint is a router.
\<close>

theorem C7_tap_devices:
  assumes "1 \<le> unat n" and "unat n \<le> 63"
  shows "\<exists>st. main rs d n = Some (Inr (0, st)) \<and>
    map br_device (bridges st) = [link_device st 0 0, link_device st (unat n) 1] \<and>
    map br_node (bridges st) = [0, unat n + 1] \<and>
    map br_name (bridges st) = [''ns3_em0'', ''ns3_em1''] \<and>
    filter is_TapInstall (trace st) =
      [TapInstall 0 (link_device st 0 0), TapInstall (unat n + 1) (link_device st (unat n) 1)] \<and>
    dev_node (link_device st 0 0) = 0 \<and>
    dev_node (link_device st (unat n) 1) = unat n + 1 \<and>
    \<not> is_Router st (dev_node (link_device st 0 0)) \<and>
    \<not> is_Router st (dev_node (link_device st (unat n) 1))"
proof -
  let ?N = "unat n"
  let ?st = "chain rs d ?N"
  have dev: "link_device ?st 0 0 = chain_device 0 0" "link_device ?st ?N 1 = chain_device ?N 1"
    by (simp_all add: chain_link_device)
  have "main rs d n = Some (Inr (0, ?st))"
    using assms by (rule main_valid)
  moreover have "map br_device (bridges ?st) = [link_device ?st 0 0, link_device ?st ?N 1]"
    "map br_node (bridges ?st) = [0, ?N + 1]"
    "map br_name (bridges ?st) = [''ns3_em0'', ''ns3_em1'']"
    unfolding dev by (simp_all add: chain_def)
  moreover have "filter is_TapInstall (trace ?st) =
      [TapInstall 0 (link_device ?st 0 0), TapInstall (?N + 1) (link_device ?st ?N 1)]"
    unfolding dev by (simp add: chain_taps)
  moreover have "dev_node (link_device ?st 0 0) = 0" "dev_node (link_device ?st ?N 1) = ?N + 1"
    unfolding dev by (simp_all add: chain_device_def)
  moreover have "\<not> is_Router ?st (dev_node (link_device ?st 0 0))"
    "\<not> is_Router ?st (dev_node (link_device ?st ?N 1))"
    unfolding dev by (simp_all add: chain_device_def is_Router_def chain_def)
  ultimately show ?thesis by (intro exI [of _ ?st]) simp
qed

theorem C7_tap_devices_witness:
  "1 \<le> unat (3 :: 16 word) \<and> unat (3 :: 16 word) \<le> 63 \<and>
   (\<exists>st. main 100 50000 3 = Some (Inr (0, st)) \<and>
     map br_device (bridges st) = [link_device st 0 0, link_device st 3 1] \<and>
     map br_node (bridges st) = [0, 4] \<and>
     map br_name (bridges st) = [''ns3_em0'', ''ns3_em1''] \<and>
     filter is_TapInstall (trace st) =
       [TapInstall 0 (link_device st 0 0), TapInstall 4 (link_device st 3 1)] \<and>
     dev_node (link_device st 0 0) = 0 \<and>
     dev_node (link_device st 3 1) = 4)"
proof -
  have h: "1 \<le> unat (3 :: 16 word)" "unat (3 :: 16 word) \<le> 63"
    by simp_all
  from C7_tap_devices [OF h, of 100 50000] obtain st where
    st: "main 100 50000 3 = Some (Inr (0, st)) \<and>
    map br_device (bridges st) = [link_device st 0 0, link_device st (unat (3 :: 16 word)) 1] \<and>
    map br_node (bridges st) = [0, unat (3 :: 16 word) + 1] \<and>
    map br_name (bridges st) = [''ns3_em0'', ''ns3_em1''] \<and>
    filter is_TapInstall (trace st) =
      [TapInstall 0 (link_device st 0 0),
       TapInstall (unat (3 :: 16 word) + 1) (link_device st (unat (3 :: 16 word)) 1)] \<and>
    dev_node (link_device st 0 0) = 0 \<and>
    dev_node (link_device st (unat (3 :: 16 word)) 1) = unat (3 :: 16 word) + 1 \<and>
    \<not> is_Router st (dev_node (link_device st 0 0)) \<and>
    \<not> is_Router st (dev_node (link_device st (unat (3 :: 16 word)) 1))"
    by (rule exE)
  then have "main 100 50000 3 = Some (Inr (0, st)) \<and>
     map br_device (bridges st) = [link_device st 0 0, link_device st 3 1] \<and>
     map br_node (bridges st) = [0, 4] \<and>
     map br_name (bridges st) = [''ns3_em0'', ''ns3_em1''] \<and>
     filter is_TapInstall (trace st) =
       [TapInstall 0 (link_device st 0 0), TapInstall 4 (link_device st 3 1)] \<and>
     dev_node (link_device st 0 0) = 0 \<and>
     dev_node (link_device st 3 1) = 4"
    by simp
  then have "\<exists>st. main 100 50000 3 = Some (Inr (0, st)) \<and>
     map br_device (bridges st) = [link_device st 0 0, link_device st 3 1] \<and>
     map br_node (bridges st) = [0, 4] \<and>
     map br_name (bridges st) = [''ns3_em0'', ''ns3_em1''] \<and>
     filter is_TapInstall (trace st) =
       [TapInstall 0 (link_device st 0 0), TapInstall 4 (link_device st 3 1)] \<and>
     dev_node (link_device st 0 0) = 0 \<and>
     dev_node (link_device st 3 1) = 4"
    by (intro exI [of _ st])
  with h show ?thesis by (intro conjI)
qed

text \<open>
  C8. For every valid router count, \<open>main\<close> returns exit code 0 and the calls it made
  contain \<open>PopulateRoutingTables\<close> exactly once: every address assignment comes before
  it, the start of the simulator comes after it. With zero routers \<open>main\<close> returns exit
  code 1 and never reaches the routing step.
\<close>

theorem C8_routing_once:
  shows "(1 \<le> unat n \<and> unat n \<le> 63 \<longrightarrow>
      (\<exists>st pre post. main rs d n = Some (Inr (0, st)) \<and>
        trace st = pre @ PopulateRoutingTables # post \<and>
        PopulateRoutingTables \<notin> set pre \<and>
        PopulateRoutingTables \<notin> set post \<and>
        filter is_AssignAddr pre = map (\<lambda>a. AssignAddr (ia_dev a) (ia_local a)) (ifaddrs st) \<and>
        filter is_AssignAddr post = [] \<and>
        SimRun \<notin> set pre \<and>
        SimRun \<in> set post)) \<and>
    (\<exists>st. main rs d 0 = Some (Inr (1, st)) \<and> PopulateRoutingTables \<notin> set (trace st))"
proof (intro conjI impI)
  assume "1 \<le> unat n \<and> unat n \<le> 63"
  then have "main rs d n = Some (Inr (0, chain rs d (unat n)))"
    by (simp add: main_valid)
  moreover have "trace (chain rs d (unat n)) =
      chain_setup (unat n) @ PopulateRoutingTables # [SimStop rs, SimRun, SimDestroy]"
    by (simp add: chain_def chain_calls_split)
  ultimately show "\<exists>st pre post. main rs d n = Some (Inr (0, st)) \<and>
        trace st = pre @ PopulateRoutingTables # post \<and>
        PopulateRoutingTables \<notin> set pre \<and>
        PopulateRoutingTables \<notin> set post \<and>
        filter is_AssignAddr pre = map (\<lambda>a. AssignAddr (ia_dev a) (ia_local a)) (ifaddrs st) \<and>
        filter is_AssignAddr post = [] \<and>
        SimRun \<notin> set pre \<and>
        SimRun \<in> set post"
    using chain_setup_no_populate [of "unat n"] chain_setup_no_run [of "unat n"]
      chain_setup_assigns [of "unat n" rs d]
    by (intro exI [of _ "chain rs d (unat n)"] exI [of _ "chain_setup (unat n)"]
        exI [of _ "[SimStop rs, SimRun, SimDestroy]"]) simp
next
  have "main rs d 0 = Some (Inr (1, called (LogError ''Invalid router count'') sim0))"
    by (rule main_invalid) simp
  then show "\<exists>st. main rs d 0 = Some (Inr (1, st)) \<and> PopulateRoutingTables \<notin> set (trace st)"
    by (simp add: called_def sim0_def)
qed

theorem C8_routing_once_witness:
  "1 \<le> unat (2 :: 16 word) \<and> unat (2 :: 16 word) \<le> 63 \<and>
   (\<exists>st pre post. main 100 50000 2 = Some (Inr (0, st)) \<and>
        trace st = pre @ PopulateRoutingTables # post \<and>
        PopulateRoutingTables \<notin> set pre \<and>
        PopulateRoutingTables \<notin> set post \<and>
        filter is_AssignAddr pre = map (\<lambda>a. AssignAddr (ia_dev a) (ia_local a)) (ifaddrs st) \<and>
        filter is_AssignAddr post = [] \<and>
        SimRun \<notin> set pre \<and>
        SimRun \<in> set post) \<and>
   (\<exists>st. main 100 50000 0 = Some (Inr (1, st)) \<and> PopulateRoutingTables \<notin> set (trace st))"
proof -
  have h: "1 \<le> unat (2 :: 16 word)" "unat (2 :: 16 word) \<le> 63"
    by simp_all
  note t = C8_routing_once [of 2 100 50000]
  have "\<exists>st pre post. main 100 50000 2 = Some (Inr (0, st)) \<and>
        trace st = pre @ PopulateRoutingTables # post \<and>
        PopulateRoutingTables \<notin> set pre \<and>
        PopulateRoutingTables \<notin> set post \<and>
        filter is_AssignAddr pre = map (\<lambda>a. AssignAddr (ia_dev a) (ia_local a)) (ifaddrs st) \<and>
        filter is_AssignAddr post = [] \<and>
        SimRun \<notin> set pre \<and>
        SimRun \<in> set post"
    by (rule mp [OF t [THEN conjunct1]]) (intro conjI h)
  moreover have "\<exists>st. main 100 50000 0 = Some (Inr (1, st)) \<and>
      PopulateRoutingTables \<notin> set (trace st)"
    by (rule t [THEN conjunct2])
  ultimately show ?thesis
    using h by (intro conjI)
qed

text \<open>
  C9. For every valid router count, the nodes with an internet stack are exactly the nodes
  1 to routerCount, each installed once; node 0 and node routerCount + 1 have none.
\<close>

theorem C9_stack_on_routers_only:
  assumes "1 \<le> unat n" and "unat n \<le> 63"
  shows "\<exists>st. main rs d n = Some (Inr (0, st)) \<and>
    set (stack_nodes st) = {1..unat n} \<and>
    distinct (stack_nodes st) \<and>
    0 \<notin> set (stack_nodes st) \<and>
    unat n + 1 \<notin> set (stack_nodes st)"
proof -
  let ?st = "chain rs d (unat n)"
  have "main rs d n = Some (Inr (0, ?st))"
    using assms by (rule main_valid)
  moreover have "set (stack_nodes ?st) = {1..unat n}"
    by (auto simp add: chain_def)
  moreover have "distinct (stack_nodes ?st)"
    by (simp add: chain_def del: upt_Suc)
  ultimately show ?thesis by (intro exI [of _ ?st]) simp
qed

theorem C9_stack_on_routers_only_witness:
  "1 \<le> unat (3 :: 16 word) \<and> unat (3 :: 16 word) \<le> 63 \<and>
   (\<exists>st. main 100 50000 3 = Some (Inr (0, st)) \<and>
     set (stack_nodes st) = {1, 2, 3} \<and>
     0 \<notin> set (stack_nodes st) \<and>
     4 \<notin> set (stack_nodes st))"
proof -
  have h: "1 \<le> unat (3 :: 16 word)" "unat (3 :: 16 word) \<le> 63"
    by simp_all
  from C9_stack_on_routers_only [OF h, of 100 50000] obtain st where
    st: "main 100 50000 3 = Some (Inr (0, st)) \<and>
    set (stack_nodes st) = {1..unat (3 :: 16 word)} \<and>
    distinct (stack_nodes st) \<and>
    0 \<notin> set (stack_nodes st) \<and>
    unat (3 :: 16 word) + 1 \<notin> set (stack_nodes st)"
    by (rule exE)
  have "{1..3 :: nat} = {1, 2, 3}"
    by auto
  with st have "main 100 50000 3 = Some (Inr (0, st)) \<and>
     set (stack_nodes st) = {1, 2, 3} \<and>
     0 \<notin> set (stack_nodes st) \<and>
     4 \<notin> set (stack_nodes st)"
    by simp
  then have "\<exists>st. main 100 50000 3 = Some (Inr (0, st)) \<and>
     set (stack_nodes st) = {1, 2, 3} \<and>
     0 \<notin> set (stack_nodes st) \<and>
     4 \<notin> set (stack_nodes st)"
    by (intro exI [of _ st])
  with h show ?thesis by (intro conjI)
qed

text \<open>
  C10. For every valid router count, each of the routerCount + 1 links has the data rate
  1000Mbps and the one delay given on the command line.
\<close>

theorem C10_uniform_link_attributes:
  assumes "1 \<le> unat n" and "unat n \<le> 63"
  shows "\<exists>st. main rs d n = Some (Inr (0, st)) \<and>
    length (channels st) = unat n + 1 \<and>
    (\<forall>c \<in> set (channels st). ch_rate c = ''1000Mbps'' \<and> ch_delay c = d)"
proof -
  let ?st = "chain rs d (unat n)"
  have "main rs d n = Some (Inr (0, ?st))"
    using assms by (rule main_valid)
  moreover have "length (channels ?st) = unat n + 1"
    by (simp add: chain_def)
  moreover have "\<forall>c \<in> set (channels ?st). ch_rate c = ''1000Mbps'' \<and> ch_delay c = d"
    by (auto simp add: chain_def chain_link_def)
  ultimately show ?thesis by (intro exI [of _ ?st]) simp
qed

theorem C10_uniform_link_attributes_witness:
  "1 \<le> unat (3 :: 16 word) \<and> unat (3 :: 16 word) \<le> 63 \<and>
   (\<exists>st. main 100 50000 3 = Some (Inr (0, st)) \<and>
     length (channels st) = 4 \<and>
     ch_rate (channels st ! 0) = ''1000Mbps'' \<and> ch_delay (channels st ! 0) = 50000 \<and>
     ch_rate (channels st ! 2) = ''1000Mbps'' \<and> ch_delay (channels st ! 2) = 50000 \<and>
     ch_rate (channels st ! 3) = ''1000Mbps'' \<and> ch_delay (channels st ! 3) = 50000)"
proof -
  have h: "1 \<le> unat (3 :: 16 word)" "unat (3 :: 16 word) \<le> 63"
    by simp_all
  from C10_uniform_link_attributes [OF h, of 100 50000] obtain st where
    st: "main 100 50000 3 = Some (Inr (0, st)) \<and>
    length (channels st) = unat (3 :: 16 word) + 1 \<and>
    (\<forall>c \<in> set (channels st). ch_rate c = ''1000Mbps'' \<and> ch_delay c = 50000)"
    by (rule exE)
  then have len: "length (channels st) = 4"
    and all: "\<forall>c \<in> set (channels st). ch_rate c = ''1000Mbps'' \<and> ch_delay c = 50000"
    by simp_all
  have m0: "channels st ! 0 \<in> set (channels st)"
    and m2: "channels st ! 2 \<in> set (channels st)"
    and m3: "channels st ! 3 \<in> set (channels st)"
    using len by simp_all
  note c0 = bspec [OF all m0] and c2 = bspec [OF all m2] and c3 = bspec [OF all m3]
  have "main 100 50000 3 = Some (Inr (0, st)) \<and>
     length (channels st) = 4 \<and>
     ch_rate (channels st ! 0) = ''1000Mbps'' \<and> ch_delay (channels st ! 0) = 50000 \<and>
     ch_rate (channels st ! 2) = ''1000Mbps'' \<and> ch_delay (channels st ! 2) = 50000 \<and>
     ch_rate (channels st ! 3) = ''1000Mbps'' \<and> ch_delay (channels st ! 3) = 50000"
    using st [THEN conjunct1] len c0 [THEN conjunct1] c0 [THEN conjunct2]
      c2 [THEN conjunct1] c2 [THEN conjunct2] c3 [THEN conjunct1] c3 [THEN conjunct2]
    by (intro conjI)
  then have "\<exists>st. main 100 50000 3 = Some (Inr (0, st)) \<and>
     length (channels st) = 4 \<and>
     ch_rate (channels st ! 0) = ''1000Mbps'' \<and> ch_delay (channels st ! 0) = 50000 \<and>
     ch_rate (channels st ! 2) = ''1000Mbps'' \<and> ch_delay (channels st ! 2) = 50000 \<and>
     ch_rate (channels st ! 3) = ''1000Mbps'' \<and> ch_delay (channels st ! 3) = 50000"
    by (intro exI [of _ st])
  with h show ?thesis by (intro conjI)
qed

end
